theory Spec2Isabelle
  imports Main "HOL-Library.Sublist"
begin

section \<open>The persistent store and the JSON codec\<close>

text \<open>
  \<^verbatim>\<open>localStorage\<close> maps a key to a string or to nothing. \<^verbatim>\<open>JSON.parse\<close> and
  \<^verbatim>\<open>JSON.stringify\<close> are built into the host; they are taken as a parameter, one
  pair of functions per record kind. A parse that throws is \<open>None\<close>. The parse of the
  cache record stands for \<^verbatim>\<open>JSON.parse\<close> followed by the conversion of the two date
  strings of every entry (\<^verbatim>\<open>new Date(p.cachedAt)\<close>); a time is the number of
  milliseconds \<^verbatim>\<open>getTime()\<close> returns.
\<close>

type_synonym storage = "string \<Rightarrow> string option"

record cachedPlaylist =
  pl_id :: string
  pl_name :: string
  tracks :: "string list"
  lastModified :: int
  artworkUrl :: "string option"
  cachedAt :: int

record cacheSettings =
  enabled :: bool
  expirationMinutes :: int

text \<open>What a persisted settings object holds: each field may be missing.\<close>

record partialSettings =
  p_enabled :: "bool option"
  p_expirationMinutes :: "int option"

record json =
  parse_settings :: "string \<Rightarrow> partialSettings option"
  stringify_settings :: "cacheSettings \<Rightarrow> string"
  parse_cache :: "string \<Rightarrow> cachedPlaylist list option"
  stringify_cache :: "cachedPlaylist list \<Rightarrow> string"
  parse_ids :: "string \<Rightarrow> string list option"
  stringify_ids :: "string list \<Rightarrow> string"

definition CACHE_KEY :: string where
  "CACHE_KEY = ''playlist-manager-cache''"

definition SETTINGS_KEY :: string where
  "SETTINGS_KEY = ''playlist-manager-settings''"

definition MODIFIED_PLAYLISTS_KEY :: string where
  "MODIFIED_PLAYLISTS_KEY = ''playlist-manager-modified''"

section \<open>PlaylistCache\<close>

definition defaultSettings :: cacheSettings where
  "defaultSettings = \<lparr>enabled = True, expirationMinutes = 5\<rparr>"

text \<open>The object spread \<^verbatim>\<open>{ ...base, ...over }\<close>: a field of \<open>over\<close> wins when present.\<close>

definition spread :: "cacheSettings \<Rightarrow> partialSettings \<Rightarrow> cacheSettings" where
  "spread base over =
     \<lparr>enabled = (case p_enabled over of None \<Rightarrow> enabled base | Some b \<Rightarrow> b),
      expirationMinutes =
        (case p_expirationMinutes over of None \<Rightarrow> expirationMinutes base | Some m \<Rightarrow> m)\<rparr>"

text \<open>
  \<^verbatim>\<open>getSettings\<close>: \<^verbatim>\<open>if (stored)\<close> is false for a missing item and for the empty
  string; a parse that throws is caught and the defaults are returned.
\<close>

definition getSettings :: "json \<Rightarrow> storage \<Rightarrow> cacheSettings" where
  "getSettings J ls =
     (case ls SETTINGS_KEY of
        None \<Rightarrow> defaultSettings
      | Some stored \<Rightarrow>
          if stored = [] then defaultSettings
          else (case parse_settings J stored of
                  None \<Rightarrow> defaultSettings
                | Some p \<Rightarrow> spread defaultSettings p))"

definition saveSettings :: "json \<Rightarrow> storage \<Rightarrow> partialSettings \<Rightarrow> storage" where
  "saveSettings J ls settings =
     (let current = getSettings J ls;
          updated = spread current settings
      in ls(SETTINGS_KEY \<mapsto> stringify_settings J updated))"

definition getCache :: "json \<Rightarrow> storage \<Rightarrow> cachedPlaylist list" where
  "getCache J ls =
     (let settings = getSettings J ls
      in if \<not> enabled settings then []
         else (case ls CACHE_KEY of
                 None \<Rightarrow> []
               | Some stored \<Rightarrow>
                   if stored = [] then []
                   else (case parse_cache J stored of
                           None \<Rightarrow> []
                         | Some cache \<Rightarrow> cache)))"

definition getCachedPlaylist :: "json \<Rightarrow> storage \<Rightarrow> int \<Rightarrow> string \<Rightarrow> cachedPlaylist option" where
  "getCachedPlaylist J ls now playlistId =
     (let cache = getCache J ls
      in case find (\<lambda>p. pl_id p = playlistId) cache of
           None \<Rightarrow> None
         | Some playlist \<Rightarrow>
             (let settings = getSettings J ls;
                  expirationMs = expirationMinutes settings * 60 * 1000;
                  age = now - cachedAt playlist
              in if age > expirationMs then None else Some playlist))"

definition isSongInPlaylist :: "json \<Rightarrow> storage \<Rightarrow> int \<Rightarrow> string \<Rightarrow> string \<Rightarrow> bool option" where
  "isSongInPlaylist J ls now playlistId songId =
     (case getCachedPlaylist J ls now playlistId of
        None \<Rightarrow> None
      | Some playlist \<Rightarrow> Some (songId \<in> set (tracks playlist)))"

fun findIndex :: "('a \<Rightarrow> bool) \<Rightarrow> 'a list \<Rightarrow> nat option" where
  "findIndex P [] = None"
| "findIndex P (x # xs) = (if P x then Some 0 else map_option Suc (findIndex P xs))"

text \<open>The body of the \<^verbatim>\<open>forEach\<close> of \<^verbatim>\<open>updatePlaylists\<close>.\<close>

definition upsert :: "int \<Rightarrow> cachedPlaylist list \<Rightarrow> cachedPlaylist \<Rightarrow> cachedPlaylist list" where
  "upsert now cache playlist =
     (let cachedPlaylist = playlist\<lparr>cachedAt := now\<rparr>
      in case findIndex (\<lambda>p. pl_id p = pl_id playlist) cache of
           Some index \<Rightarrow> cache[index := cachedPlaylist]
         | None \<Rightarrow> cache @ [cachedPlaylist])"

definition updatePlaylists :: "json \<Rightarrow> storage \<Rightarrow> int \<Rightarrow> cachedPlaylist list \<Rightarrow> storage" where
  "updatePlaylists J ls now playlists =
     (let settings = getSettings J ls
      in if \<not> enabled settings then ls
         else (let cache = getCache J ls
               in ls(CACHE_KEY \<mapsto> stringify_cache J (foldl (upsert now) cache playlists))))"

definition clearCache :: "storage \<Rightarrow> storage" where
  "clearCache ls = ls(CACHE_KEY := None, MODIFIED_PLAYLISTS_KEY := None)"

text \<open>
  \<^verbatim>\<open>stored ? JSON.parse(stored) : []\<close>, the read that \<^verbatim>\<open>markPlaylistsModified\<close>
  and \<^verbatim>\<open>getModifiedPlaylists\<close> share; \<open>None\<close> when the parse throws.
\<close>

definition readModified :: "json \<Rightarrow> storage \<Rightarrow> string list option" where
  "readModified J ls =
     (case ls MODIFIED_PLAYLISTS_KEY of
        None \<Rightarrow> Some []
      | Some stored \<Rightarrow> if stored = [] then Some [] else parse_ids J stored)"

definition markPlaylistsModified :: "json \<Rightarrow> storage \<Rightarrow> string list \<Rightarrow> storage" where
  "markPlaylistsModified J ls playlistIds =
     (case readModified J ls of
        None \<Rightarrow> ls
      | Some modified \<Rightarrow>
          ls(MODIFIED_PLAYLISTS_KEY \<mapsto>
               stringify_ids J
                 (foldl (\<lambda>m i. if i \<in> set m then m else m @ [i]) modified playlistIds)))"

definition getModifiedPlaylists :: "json \<Rightarrow> storage \<Rightarrow> string list" where
  "getModifiedPlaylists J ls = (case readModified J ls of None \<Rightarrow> [] | Some modified \<Rightarrow> modified)"

definition clearModifiedPlaylists :: "storage \<Rightarrow> storage" where
  "clearModifiedPlaylists ls = ls(MODIFIED_PLAYLISTS_KEY := None)"

text \<open>
  The statistics. \<open>cacheSize\<close> is the number \<^verbatim>\<open>sizeKB\<close> that the source prints before
  \<^verbatim>\<open>" KB"\<close>; \<^verbatim>\<open>Math.round\<close> rounds a half upwards.
\<close>

record stats =
  totalPlaylists :: nat
  expiredPlaylists :: nat
  modifiedPlaylists :: nat
  cacheSize :: nat
  oldestCache :: "int option"

definition getStats :: "json \<Rightarrow> storage \<Rightarrow> int \<Rightarrow> stats" where
  "getStats J ls now =
     (let cache = getCache J ls;
          settings = getSettings J ls;
          modified = getModifiedPlaylists J ls;
          expirationMs = expirationMinutes settings * 60 * 1000;
          expired = filter (\<lambda>p. now - cachedAt p > expirationMs) cache;
          oldest = (case cache of
                      [] \<Rightarrow> None
                    | c # _ \<Rightarrow>
                        Some (foldl (\<lambda>oldest p. if cachedAt p < oldest then cachedAt p else oldest)
                                (cachedAt c) cache));
          cacheStr = (case ls CACHE_KEY of None \<Rightarrow> [] | Some s \<Rightarrow> s);
          sizeKB = (length cacheStr + 512) div 1024
      in \<lparr>totalPlaylists = length cache,
          expiredPlaylists = length expired,
          modifiedPlaylists = length modified,
          cacheSize = sizeKB,
          oldestCache = oldest\<rparr>)"

section \<open>The remote library\<close>

text \<open>
  A track of a playlist page, as far as the code reads it. A field that the response
  lacks is \<open>None\<close>. \<^verbatim>\<open>String(a || b || "")\<close> takes the first field that is present
  and not empty, and the empty string when there is none.
\<close>

record track =
  t_id :: "string option"
  t_type :: "string option"
  playParams_id :: "string option"
  playParams_catalogId :: "string option"
  playParams_reportingId :: "string option"

definition truthy :: "string option \<Rightarrow> bool" where
  "truthy v = (case v of None \<Rightarrow> False | Some s \<Rightarrow> s \<noteq> [])"

definition orElse :: "string option \<Rightarrow> string option \<Rightarrow> string option" where
  "orElse a b = (if truthy a then a else b)"

definition orEmpty :: "string option \<Rightarrow> string" where
  "orEmpty v = (case v of None \<Rightarrow> [] | Some s \<Rightarrow> s)"

text \<open>\<^verbatim>\<open>a.includes(b)\<close>: \<open>b\<close> occurs in \<open>a\<close> as a contiguous run.\<close>

fun includesStr :: "string \<Rightarrow> string \<Rightarrow> bool" where
  "includesStr [] b = (b = [])"
| "includesStr (c # cs) b = (prefix b (c # cs) \<or> includesStr cs b)"

text \<open>
  The remote service: the page of a playlist's tracks at an offset (the array that the
  code takes out of the response, \<open>None\<close> when the call throws), how long it takes
  over the pages of a playlist, whether both tokens are there, and whether it accepts the
  \<^verbatim>\<open>POST\<close> and the \<^verbatim>\<open>PUT\<close> of a playlist. Its answers do not change during
  one operation.
\<close>

record remote =
  tracksPage :: "string \<Rightarrow> nat \<Rightarrow> track list option"
  latency :: "string \<Rightarrow> nat"
  tokens :: bool
  postOk :: "string \<Rightarrow> bool"
  putOk :: "string \<Rightarrow> (string option \<times> string) list \<Rightarrow> bool"

section \<open>Pagination\<close>

definition limit :: nat where
  "limit = 100"

text \<open>
  The \<^verbatim>\<open>while (hasMore)\<close> loop that \<^verbatim>\<open>checkSongInPlaylistWithCache\<close> and
  \<^verbatim>\<open>removeSongFromPlaylist\<close> both have. The fetch takes the caller's state and
  returns the page with the new state. The loop ends on a call that throws, on an empty
  page, when the offset after the page is above 1000, and on a page that is not exactly
  \<open>limit\<close> long.
\<close>

function fetchAllTracks ::
  "('s \<Rightarrow> nat \<Rightarrow> track list option \<times> 's) \<Rightarrow> track list \<Rightarrow> nat \<Rightarrow> 's \<Rightarrow> track list \<times> 's"
where
  "fetchAllTracks fetch allTracks offset s =
     (case fetch s offset of
        (None, s') \<Rightarrow> (allTracks, s')
      | (Some page, s') \<Rightarrow>
          if page = [] then (allTracks, s')
          else if offset + limit > 1000 then (allTracks @ page, s')
          else if length page = limit
            then fetchAllTracks fetch (allTracks @ page) (offset + limit) s'
          else (allTracks @ page, s'))"
  by pat_completeness auto
termination
  by (relation "measure (\<lambda>(fetch, allTracks, offset, s). 1100 - offset)") (auto simp: limit_def)

section \<open>Checking one playlist\<close>

definition trackIds :: "track list \<Rightarrow> (string \<times> string) list" where
  "trackIds allTracks =
     filter (\<lambda>(libraryId, catalogId). libraryId \<noteq> [] \<or> catalogId \<noteq> [])
       (map (\<lambda>track.
               (orEmpty (orElse (t_id track) (playParams_id track)),
                orEmpty (orElse (playParams_catalogId track) (playParams_reportingId track))))
          allTracks)"

definition allIds :: "(string \<times> string) list \<Rightarrow> string list" where
  "allIds ids =
     concat (map (\<lambda>(libraryId, catalogId).
                    (if libraryId \<noteq> [] then [libraryId] else [])
                    @ (if catalogId \<noteq> [] then [catalogId] else []))
               ids)"

text \<open>\<^verbatim>\<open>replace(/^i\./, '')\<close>\<close>

definition stripI :: "string \<Rightarrow> string" where
  "stripI s = (if prefix ''i.'' s then drop 2 s else s)"

definition idMatches :: "string \<Rightarrow> string \<Rightarrow> bool" where
  "idMatches searchId trackId =
     (let cleanSearchId = stripI searchId;
          cleanTrackId = stripI trackId
      in trackId = searchId \<or> cleanTrackId = cleanSearchId
         \<or> includesStr trackId searchId \<or> includesStr searchId trackId
         \<or> includesStr cleanTrackId cleanSearchId \<or> includesStr cleanSearchId cleanTrackId)"

definition songFound :: "string list \<Rightarrow> string list \<Rightarrow> bool" where
  "songFound searchIds ids = list_ex (\<lambda>searchId. list_ex (idMatches searchId) ids) searchIds"

section \<open>The modal's world\<close>

text \<open>
  What the reconciliation pass reads and writes: \<^verbatim>\<open>localStorage\<close>, the clock behind
  \<^verbatim>\<open>new Date()\<close> in milliseconds, the \<^verbatim>\<open>aborted\<close> flag, and the count of the
  \<^verbatim>\<open>await\<close>s passed so far. At an \<^verbatim>\<open>await\<close> the rest of the program runs: the
  environment \<open>E\<close> says what it does to the world at the \<open>n\<close>-th one (the user closes the
  modal, time passes, another operation writes to storage).
\<close>

record world =
  localStorage :: storage
  clock :: int
  aborted :: bool
  awaits :: nat

type_synonym env = "nat \<Rightarrow> world \<Rightarrow> world"

definition suspend :: "env \<Rightarrow> world \<Rightarrow> world" where
  "suspend E w = (E (awaits w) w)\<lparr>awaits := Suc (awaits w)\<rparr>"

text \<open>
  \<^verbatim>\<open>checkSongInPlaylistWithCache\<close>. Every page fetch is an \<^verbatim>\<open>await\<close>. The inner
  \<^verbatim>\<open>catch\<close> is the \<open>None\<close> case of the loop; nothing else in the body throws, so the
  outer \<^verbatim>\<open>catch\<close> has no case here.
\<close>

definition checkSongInPlaylistWithCache ::
  "env \<Rightarrow> remote \<Rightarrow> string \<Rightarrow> string \<Rightarrow> string list \<Rightarrow> world \<Rightarrow> (bool \<times> cachedPlaylist) \<times> world"
where
  "checkSongInPlaylistWithCache E R playlistId playlistName searchIds w =
     (let (allTracks, w') =
            fetchAllTracks (\<lambda>s offset. (tracksPage R playlistId offset, suspend E s)) [] 0 w;
          ids = allIds (trackIds allTracks);
          found = songFound searchIds ids
      in ((found,
           \<lparr>pl_id = playlistId, pl_name = playlistName, tracks = ids,
            lastModified = clock w', artworkUrl = None, cachedAt = clock w'\<rparr>),
          w'))"

section \<open>The reconciliation pass\<close>

text \<open>
  A playlist of the listing, after the filter for editable library playlists and the sort
  of \<^verbatim>\<open>loadPlaylists\<close>: its id, its name and last-modified date when the response has
  them, and the artwork url with the size and format filled in.
\<close>

record playlist =
  p_id :: string
  p_name :: "string option"
  p_lastModifiedDate :: "int option"
  p_artworkUrl :: "string option"

record playlistCheckState =
  ps_id :: string
  ps_name :: string
  isInPlaylist :: bool
  originalState :: bool
  ps_lastModified :: "int option"
  ps_artworkUrl :: "string option"

definition playlistName :: "playlist \<Rightarrow> string" where
  "playlistName playlist = (if truthy (p_name playlist) then orEmpty (p_name playlist) else ''Untitled Playlist'')"

definition checkState :: "playlist \<Rightarrow> bool \<Rightarrow> playlistCheckState" where
  "checkState playlist result =
     \<lparr>ps_id = p_id playlist, ps_name = playlistName playlist,
      isInPlaylist = result, originalState = result,
      ps_lastModified = p_lastModifiedDate playlist, ps_artworkUrl = p_artworkUrl playlist\<rparr>"

fun firstNonNull :: "'a option list \<Rightarrow> 'a option" where
  "firstNonNull [] = None"
| "firstNonNull (Some r # rs) = Some r"
| "firstNonNull (None # rs) = firstNonNull rs"

text \<open>The cache lookup of one playlist in the classifying loop.\<close>

definition cachedResult ::
  "json \<Rightarrow> storage \<Rightarrow> int \<Rightarrow> string list \<Rightarrow> string list \<Rightarrow> string \<Rightarrow> bool option" where
  "cachedResult J ls now modifiedPlaylistIds searchIds playlistId =
     (let needsRefresh = playlistId \<in> set modifiedPlaylistIds
      in if \<not> needsRefresh
         then firstNonNull (map (isSongInPlaylist J ls now playlistId) searchIds)
         else None)"

text \<open>The classifying loop: the states served from the cache and the playlists to fetch.\<close>

definition classify ::
  "json \<Rightarrow> storage \<Rightarrow> int \<Rightarrow> cacheSettings \<Rightarrow> string list \<Rightarrow> string list \<Rightarrow> playlist list
     \<Rightarrow> playlistCheckState list \<times> playlist list" where
  "classify J ls now settings modifiedPlaylistIds searchIds sortedPlaylists =
     foldl (\<lambda>(playlistStates, playlistsToFetch) playlist.
              case cachedResult J ls now modifiedPlaylistIds searchIds (p_id playlist) of
                Some r \<Rightarrow>
                  if enabled settings then (playlistStates @ [checkState playlist r], playlistsToFetch)
                  else (playlistStates, playlistsToFetch @ [playlist])
              | None \<Rightarrow> (playlistStates, playlistsToFetch @ [playlist]))
       ([], []) sortedPlaylists"

text \<open>
  One batch. The source starts the checks of a batch together (\<^verbatim>\<open>Promise.all\<close>);
  here their fetches run one after the other, in the order of the batch. The states come
  back in the order of the batch, as \<^verbatim>\<open>Promise.all\<close> returns them.
\<close>

fun fetchBatch ::
  "env \<Rightarrow> remote \<Rightarrow> string list \<Rightarrow> playlist list \<Rightarrow> world
     \<Rightarrow> (playlistCheckState list \<times> cachedPlaylist list) \<times> world" where
  "fetchBatch E R searchIds [] w = (([], []), w)"
| "fetchBatch E R searchIds (playlist # rest) w =
     (let ((found, cached), w1) =
            checkSongInPlaylistWithCache E R (p_id playlist) (playlistName playlist) searchIds w;
          ((states, caches), w2) = fetchBatch E R searchIds rest w1
      in ((checkState playlist found # states, cached # caches), w2))"

text \<open>
  Each check pushes its snapshot to \<^verbatim>\<open>playlistsToCache\<close> when it completes: the
  snapshots of a batch are pushed in the order in which the remote answers, the quicker
  playlist first.
\<close>

definition completionOrder :: "remote \<Rightarrow> cachedPlaylist list \<Rightarrow> cachedPlaylist list" where
  "completionOrder R caches = sort_key (\<lambda>cached. latency R (pl_id cached)) caches"

definition batchSize :: nat where
  "batchSize = 10"

text \<open>
  The loop over the batches; \<open>None\<close> is the \<^verbatim>\<open>return\<close> on the \<^verbatim>\<open>aborted\<close> flag.
  The delay between two batches is an \<^verbatim>\<open>await\<close> of 100 milliseconds.
\<close>

function fetchBatches ::
  "env \<Rightarrow> remote \<Rightarrow> string list \<Rightarrow> playlist list \<Rightarrow> playlistCheckState list \<Rightarrow> cachedPlaylist list
     \<Rightarrow> world \<Rightarrow> (playlistCheckState list \<times> cachedPlaylist list) option \<times> world" where
  "fetchBatches E R searchIds playlistsToFetch playlistStates playlistsToCache w =
     (if playlistsToFetch = [] then (Some (playlistStates, playlistsToCache), w)
      else if aborted w then (None, w)
      else (let batch = take batchSize playlistsToFetch;
                ((batchStates, caches), w1) = fetchBatch E R searchIds batch w;
                w2 = (if drop batchSize playlistsToFetch \<noteq> [] \<and> \<not> aborted w1
                      then suspend E (w1\<lparr>clock := clock w1 + 100\<rparr>) else w1)
            in fetchBatches E R searchIds (drop batchSize playlistsToFetch)
                 (playlistStates @ batchStates) (playlistsToCache @ completionOrder R caches) w2))"
  by pat_completeness auto
termination
  by (relation "measure (\<lambda>(E, R, searchIds, playlistsToFetch, rest). length playlistsToFetch)")
    (auto simp: batchSize_def)

text \<open>
  The comparison of the final sort: playlists with the song first, then the later
  last-modified date first. The sort of the source is stable, so it is a stable sort by
  the date followed by a stable sort by the flag.
\<close>

definition sortStates :: "playlistCheckState list \<Rightarrow> playlistCheckState list" where
  "sortStates playlistStates =
     sort_key (\<lambda>p. if isInPlaylist p then 0 else (1::nat))
       (sort_key (\<lambda>p. - (case ps_lastModified p of None \<Rightarrow> 0 | Some t \<Rightarrow> t)) playlistStates)"

text \<open>
  The end of the pass, after the last batch: the write of the fetched playlists to the
  cache and the clearing of the modified list.
\<close>

definition writeBack ::
  "json \<Rightarrow> cacheSettings \<Rightarrow> string list \<Rightarrow> playlist list \<Rightarrow> cachedPlaylist list \<Rightarrow> world \<Rightarrow> world" where
  "writeBack J settings modifiedPlaylistIds playlistsToFetch playlistsToCache w =
     (let w1 = (if playlistsToFetch \<noteq> [] \<and> playlistsToCache \<noteq> [] \<and> enabled settings
                then w\<lparr>localStorage := updatePlaylists J (localStorage w) (clock w) playlistsToCache\<rparr>
                else w)
      in if modifiedPlaylistIds \<noteq> []
         then w1\<lparr>localStorage := clearModifiedPlaylists (localStorage w1)\<rparr>
         else w1)"

text \<open>
  \<^verbatim>\<open>loadPlaylists\<close>, from the reading of the settings on. The search ids and the
  sorted editable playlists of the listing are given; the lookup of the library id and
  the fetch of the listing are the first \<^verbatim>\<open>await\<close>. The result is the list that the
  modal shows, or nothing when the pass returned on the \<^verbatim>\<open>aborted\<close> flag.
\<close>

definition loadPlaylists ::
  "json \<Rightarrow> env \<Rightarrow> remote \<Rightarrow> string list \<Rightarrow> playlist list \<Rightarrow> world
     \<Rightarrow> playlistCheckState list option \<times> world" where
  "loadPlaylists J E R searchIds sortedPlaylists w0 =
     (let settings = getSettings J (localStorage w0);
          w1 = suspend E w0
      in if aborted w1 then (None, w1)
         else (let modifiedPlaylistIds = getModifiedPlaylists J (localStorage w1);
                   (cacheStates, playlistsToFetch) =
                      classify J (localStorage w1) (clock w1) settings modifiedPlaylistIds
                        searchIds sortedPlaylists
               in case fetchBatches E R searchIds playlistsToFetch cacheStates [] w1 of
                    (None, w2) \<Rightarrow> (None, w2)
                  | (Some (playlistStates, playlistsToCache), w2) \<Rightarrow>
                      (Some (sortStates playlistStates),
                       writeBack J settings modifiedPlaylistIds playlistsToFetch playlistsToCache w2)))"

section \<open>Applying the changes\<close>

datatype failure = TokensUnavailable | AddFailed | UpdateFailed

text \<open>What the commit does that is visible from outside, in order.\<close>

datatype event =
    Fetch string nat
  | Post string string
  | Put string "(string option \<times> string) list"
  | Delay nat
  | MarkModified "string list"
  | Alert
  | CloseModal

definition addSongToPlaylist ::
  "remote \<Rightarrow> string \<Rightarrow> string \<Rightarrow> event list \<Rightarrow> (failure + unit) \<times> event list" where
  "addSongToPlaylist R songId playlistId tr =
     (if \<not> tokens R then (Inl TokensUnavailable, tr)
      else (let tr' = tr @ [Post playlistId songId]
            in if \<not> postOk R playlistId then (Inl AddFailed, tr') else (Inr (), tr')))"

definition isMatch :: "string \<Rightarrow> track \<Rightarrow> bool" where
  "isMatch songIdStr track =
     (let trackId = orEmpty (t_id track);
          catalogId = orEmpty (playParams_catalogId track);
          reportingId = orEmpty (playParams_reportingId track);
          playParamsId = orEmpty (playParams_id track)
      in trackId = songIdStr \<or> catalogId = songIdStr \<or> reportingId = songIdStr
         \<or> playParamsId = songIdStr
         \<or> includesStr trackId songIdStr \<or> includesStr catalogId songIdStr
         \<or> includesStr reportingId songIdStr)"

definition remainingTracks :: "string \<Rightarrow> track list \<Rightarrow> track list" where
  "remainingTracks songIdStr allTracks = filter (\<lambda>track. \<not> isMatch songIdStr track) allTracks"

text \<open>The index of the first match, or \<open>-1\<close>.\<close>

definition foundIndex :: "string \<Rightarrow> track list \<Rightarrow> int" where
  "foundIndex songIdStr allTracks =
     (case findIndex (isMatch songIdStr) allTracks of None \<Rightarrow> - 1 | Some i \<Rightarrow> int i)"

definition trackRef :: "track \<Rightarrow> string option \<times> string" where
  "trackRef track = (t_id track, if truthy (t_type track) then orEmpty (t_type track) else ''library-songs'')"

definition removeSongFromPlaylist ::
  "remote \<Rightarrow> string \<Rightarrow> string \<Rightarrow> event list \<Rightarrow> (failure + unit) \<times> event list" where
  "removeSongFromPlaylist R songId playlistId tr =
     (let (allTracks, tr1) =
            fetchAllTracks (\<lambda>s offset. (tracksPage R playlistId offset, s @ [Fetch playlistId offset]))
              [] 0 tr
      in if foundIndex songId allTracks = - 1 then (Inr (), tr1)
         else if \<not> tokens R then (Inl TokensUnavailable, tr1)
         else (let data = map trackRef (remainingTracks songId allTracks);
                   tr2 = tr1 @ [Put playlistId data]
               in if \<not> putOk R playlistId data then (Inl UpdateFailed, tr2) else (Inr (), tr2)))"

text \<open>
  The loop of \<^verbatim>\<open>applyChanges\<close> over the changed playlists. It returns the ids
  collected in \<^verbatim>\<open>modifiedIds\<close> and the changes with \<^verbatim>\<open>originalState\<close> set for those
  finished, or the failure that ended it.
\<close>

fun applyLoop ::
  "remote \<Rightarrow> string \<Rightarrow> playlistCheckState list \<Rightarrow> string list \<Rightarrow> playlistCheckState list
     \<Rightarrow> event list \<Rightarrow> (failure + string list) \<times> playlistCheckState list \<times> event list" where
  "applyLoop R songId [] modifiedIds finished tr = (Inr modifiedIds, finished, tr)"
| "applyLoop R songId (playlist # rest) modifiedIds finished tr =
     (let modifiedIds' = modifiedIds @ [ps_id playlist];
          (res, tr1) = (if isInPlaylist playlist then addSongToPlaylist R songId (ps_id playlist) tr
                        else removeSongFromPlaylist R songId (ps_id playlist) tr)
      in case res of
           Inl e \<Rightarrow> (Inl e, finished @ playlist # rest, tr1)
         | Inr _ \<Rightarrow>
             (let playlist' = playlist\<lparr>originalState := isInPlaylist playlist\<rparr>;
                  tr2 = (if rest \<noteq> [] then tr1 @ [Delay 200] else tr1)
              in applyLoop R songId rest modifiedIds' (finished @ [playlist']) tr2))"

record applied =
  ap_changes :: "playlistCheckState list"
  ap_storage :: storage
  ap_trace :: "event list"

definition applyChanges ::
  "json \<Rightarrow> remote \<Rightarrow> string \<Rightarrow> playlistCheckState list \<Rightarrow> storage \<Rightarrow> applied" where
  "applyChanges J R songId playlists ls =
     (let changes = filter (\<lambda>p. isInPlaylist p \<noteq> originalState p) playlists
      in if changes = [] then \<lparr>ap_changes = [], ap_storage = ls, ap_trace = [CloseModal]\<rparr>
         else (case applyLoop R songId changes [] [] [] of
                 (Inr modifiedIds, finished, tr) \<Rightarrow>
                   \<lparr>ap_changes = finished,
                    ap_storage = markPlaylistsModified J ls modifiedIds,
                    ap_trace = tr @ [MarkModified modifiedIds, CloseModal]\<rparr>
               | (Inl e, finished, tr) \<Rightarrow>
                   \<lparr>ap_changes = finished, ap_storage = ls, ap_trace = tr @ [Alert]\<rparr>))"

text \<open>
  \<^verbatim>\<open>applyChanges\<close> of \<^verbatim>\<open>components/PlaylistManagerModal.vue\<close>, the modal without
  the cache: the same calls, a delay only when \<^verbatim>\<open>shouldDelay\<close>, no modified list.
\<close>

fun applyLoopModal ::
  "remote \<Rightarrow> string \<Rightarrow> bool \<Rightarrow> playlistCheckState list \<Rightarrow> event list
     \<Rightarrow> (failure + unit) \<times> event list" where
  "applyLoopModal R songId shouldDelay [] tr = (Inr (), tr)"
| "applyLoopModal R songId shouldDelay (playlist # rest) tr =
     (let (res, tr1) = (if isInPlaylist playlist then addSongToPlaylist R songId (ps_id playlist) tr
                        else removeSongFromPlaylist R songId (ps_id playlist) tr)
      in case res of
           Inl e \<Rightarrow> (Inl e, tr1)
         | Inr _ \<Rightarrow>
             applyLoopModal R songId shouldDelay rest
               (if shouldDelay \<and> rest \<noteq> [] then tr1 @ [Delay 200] else tr1))"

definition applyChangesModal :: "remote \<Rightarrow> string \<Rightarrow> playlistCheckState list \<Rightarrow> event list" where
  "applyChangesModal R songId playlists =
     (let changes = filter (\<lambda>p. isInPlaylist p \<noteq> originalState p) playlists
      in if changes = [] then [CloseModal]
         else (let shouldDelay = length changes > 5
               in case applyLoopModal R songId shouldDelay changes [] of
                    (Inr _, tr) \<Rightarrow> tr @ [CloseModal]
                  | (Inl e, tr) \<Rightarrow> tr @ [Alert]))"

section \<open>The persisted table\<close>

text \<open>
  The entries that the persisted cache record holds, whatever the settings say: the
  reading part of \<^verbatim>\<open>getCache\<close> without its \<^verbatim>\<open>enabled\<close> gate. The theorems
  use it to speak of what is in storage.
\<close>

definition storedEntries :: "json \<Rightarrow> storage \<Rightarrow> cachedPlaylist list" where
  "storedEntries J ls =
     (case ls CACHE_KEY of
        None \<Rightarrow> []
      | Some stored \<Rightarrow>
          if stored = [] then []
          else (case parse_cache J stored of None \<Rightarrow> [] | Some cache \<Rightarrow> cache))"

text \<open>
  The identifiers that a check of the playlist collects from the remote: those of the
  tracks that the pagination loop of \<^verbatim>\<open>checkSongInPlaylistWithCache\<close> fetches. The
  theorems use it to speak of what a fetch of the playlist returns.
\<close>

definition remoteIds :: "remote \<Rightarrow> string \<Rightarrow> string list" where
  "remoteIds R playlistId =
     allIds (trackIds (fst (fetchAllTracks (\<lambda>s offset. (tracksPage R playlistId offset, s)) [] 0 ())))"

section \<open>Values for the examples\<close>

text \<open>
  A stand-in for the JSON functions on the few documents the examples below store;
  every other string is taken as unparseable.
\<close>

definition gymEntry :: cachedPlaylist where
  "gymEntry = \<lparr>pl_id = ''p.gym'', pl_name = ''Gym'', tracks = [''i.abc'', ''1001''],
               lastModified = 1000000, artworkUrl = None, cachedAt = 1000000\<rparr>"

definition disabledStore :: storage where
  "disabledStore =
     [SETTINGS_KEY \<mapsto> ''{enabled:false,expirationMinutes:5}'',
      CACHE_KEY \<mapsto> ''[gym]'' @ replicate 2000 (CHR '' ''),
      MODIFIED_PLAYLISTS_KEY \<mapsto> ''[p.gym,p.run]'']"

definition tableJSON :: json where
  "tableJSON =
     \<lparr>parse_settings = (\<lambda>s.
          if s = ''{enabled:false}'' then Some \<lparr>p_enabled = Some False, p_expirationMinutes = None\<rparr>
          else if s = ''{enabled:false,expirationMinutes:5}''
            then Some \<lparr>p_enabled = Some False, p_expirationMinutes = Some 5\<rparr>
          else if s = ''{enabled:true,expirationMinutes:5}''
            then Some \<lparr>p_enabled = Some True, p_expirationMinutes = Some 5\<rparr>
          else if s = ''{expirationMinutes:10}''
            then Some \<lparr>p_enabled = None, p_expirationMinutes = Some 10\<rparr>
          else None),
      stringify_settings = (\<lambda>c.
          (if enabled c then ''{enabled:true,expirationMinutes:''
           else ''{enabled:false,expirationMinutes:'')
          @ (if expirationMinutes c = 5 then ''5}'' else ''?}'')),
      parse_cache = (\<lambda>s.
          if s = ''[gym]'' \<or> s = ''[gym]'' @ replicate 2000 (CHR '' '') then Some [gymEntry]
          else None),
      stringify_cache = (\<lambda>c. if c = [gymEntry] then ''[gym]'' else ''[...]''),
      parse_ids = (\<lambda>s.
          if s = ''[p.gym]'' then Some [''p.gym'']
          else if s = ''[p.gym,p.run]'' then Some [''p.gym'', ''p.run'']
          else None),
      stringify_ids = (\<lambda>ids.
          if ids = [''p.gym''] then ''[p.gym]''
          else if ids = [''p.gym'', ''p.run''] then ''[p.gym,p.run]''
          else ''[...]'')\<rparr>"

text \<open>
  A remote library that serves each playlist in pages of at most \<open>limit\<close> tracks, all
  equally fast, and accepts every write.
\<close>

definition serve :: "(string \<Rightarrow> track list) \<Rightarrow> remote" where
  "serve library =
     \<lparr>tracksPage = (\<lambda>playlistId offset. Some (take limit (drop offset (library playlistId)))),
      latency = (\<lambda>_. 0), tokens = True, postOk = (\<lambda>_. True), putOk = (\<lambda>_ _. True)\<rparr>"

definition song :: "string \<Rightarrow> track" where
  "song i = \<lparr>t_id = Some i, t_type = Some ''library-songs'', playParams_id = Some i,
            playParams_catalogId = None, playParams_reportingId = None\<rparr>"

definition gymTrack :: track where
  "gymTrack = \<lparr>t_id = Some ''i.abc'', t_type = Some ''library-songs'', playParams_id = Some ''i.abc'',
               playParams_catalogId = Some ''1001'', playParams_reportingId = None\<rparr>"

definition gymPlaylist :: playlist where
  "gymPlaylist = \<lparr>p_id = ''p.gym'', p_name = Some ''Gym'', p_lastModifiedDate = Some 900000,
                  p_artworkUrl = None\<rparr>"

definition gymRemote :: remote where
  "gymRemote = serve (\<lambda>playlistId. if playlistId = ''p.gym'' then [gymTrack] else [])"

text \<open>The same library, refusing the \<^verbatim>\<open>POST\<close> to the playlist \<open>p.run\<close>.\<close>

definition rejectRun :: remote where
  "rejectRun = gymRemote\<lparr>postOk := (\<lambda>playlistId. playlistId \<noteq> ''p.run'')\<rparr>"

definition twiceInGym :: remote where
  "twiceInGym = serve (\<lambda>_. [song ''1001'', song ''2002'', song ''1001''])"

definition bigRemote :: remote where
  "bigRemote = serve (\<lambda>_. replicate 1200 (song ''i.x''))"

definition wantAdd :: "string \<Rightarrow> playlistCheckState" where
  "wantAdd i = \<lparr>ps_id = i, ps_name = i, isInPlaylist = True, originalState = False,
               ps_lastModified = None, ps_artworkUrl = None\<rparr>"

text \<open>Environments: nothing happens; the user closes the modal at the \<open>k\<close>-th
  \<^verbatim>\<open>await\<close>; another commit marks playlists modified at the \<open>k\<close>-th \<^verbatim>\<open>await\<close>.\<close>

definition idle :: env where
  "idle = (\<lambda>n w. w)"

definition closeAt :: "nat \<Rightarrow> env" where
  "closeAt k = (\<lambda>n w. if n = k then w\<lparr>aborted := True\<rparr> else w)"

definition markAt :: "nat \<Rightarrow> json \<Rightarrow> string list \<Rightarrow> env" where
  "markAt k J ids =
     (\<lambda>n w. if n = k then w\<lparr>localStorage := markPlaylistsModified J (localStorage w) ids\<rparr> else w)"

definition world0 :: world where
  "world0 = \<lparr>localStorage = Map.empty, clock = 1000000, aborted = False, awaits = 0\<rparr>"

definition gymModified :: world where
  "gymModified = \<lparr>localStorage = [MODIFIED_PLAYLISTS_KEY \<mapsto> ''[p.gym]''], clock = 1000000,
                  aborted = False, awaits = 0\<rparr>"

text \<open>
  The replacement list as the specification words it: the first matching entry left
  out, every other entry kept.
\<close>

fun spec_removeFirstMatch :: "string \<Rightarrow> track list \<Rightarrow> track list" where
  "spec_removeFirstMatch songIdStr [] = []"
| "spec_removeFirstMatch songIdStr (track # rest) =
     (if isMatch songIdStr track then rest else track # spec_removeFirstMatch songIdStr rest)"

section \<open>Facts about the store\<close>

declare fetchAllTracks.simps [simp del] fetchBatches.simps [simp del]

lemma keys_distinct [simp]:
  "CACHE_KEY \<noteq> SETTINGS_KEY" "SETTINGS_KEY \<noteq> CACHE_KEY"
  "CACHE_KEY \<noteq> MODIFIED_PLAYLISTS_KEY" "MODIFIED_PLAYLISTS_KEY \<noteq> CACHE_KEY"
  "SETTINGS_KEY \<noteq> MODIFIED_PLAYLISTS_KEY" "MODIFIED_PLAYLISTS_KEY \<noteq> SETTINGS_KEY"
  by (simp_all add: CACHE_KEY_def SETTINGS_KEY_def MODIFIED_PLAYLISTS_KEY_def)

text \<open>
  C9. \<^verbatim>\<open>getSettings\<close> always returns a settings value, never an error. With no
  persisted record, with an empty one and with one that fails to parse it returns exactly
  the defaults, enabled and five minutes; with a record that parses, each field that
  the record holds is returned and each field that it lacks has its default.
\<close>

theorem getSettings_defaults_merged:
  "(ls SETTINGS_KEY = None \<or> ls SETTINGS_KEY = Some [] \<or>
      (\<exists>s. ls SETTINGS_KEY = Some s \<and> parse_settings J s = None)
     \<longrightarrow> getSettings J ls = \<lparr>enabled = True, expirationMinutes = 5\<rparr>)
   \<and> (\<forall>s p. ls SETTINGS_KEY = Some s \<and> s \<noteq> [] \<and> parse_settings J s = Some p
        \<longrightarrow> enabled (getSettings J ls) = (case p_enabled p of None \<Rightarrow> True | Some b \<Rightarrow> b)
          \<and> expirationMinutes (getSettings J ls)
              = (case p_expirationMinutes p of None \<Rightarrow> 5 | Some m \<Rightarrow> m))"
  by (auto simp: getSettings_def defaultSettings_def spread_def split: option.splits)

theorem getSettings_defaults_merged_witness:
  "getSettings tableJSON Map.empty = \<lparr>enabled = True, expirationMinutes = 5\<rparr>
   \<and> getSettings tableJSON [SETTINGS_KEY \<mapsto> ''not json''] = \<lparr>enabled = True, expirationMinutes = 5\<rparr>
   \<and> getSettings tableJSON [SETTINGS_KEY \<mapsto> ''{expirationMinutes:10}'']
       = \<lparr>enabled = True, expirationMinutes = 10\<rparr>"
proof -
  have a: "getSettings tableJSON Map.empty = \<lparr>enabled = True, expirationMinutes = 5\<rparr>"
    using getSettings_defaults_merged [of Map.empty tableJSON] by simp
  have b: "getSettings tableJSON [SETTINGS_KEY \<mapsto> ''not json'']
             = \<lparr>enabled = True, expirationMinutes = 5\<rparr>"
    using getSettings_defaults_merged [of "[SETTINGS_KEY \<mapsto> ''not json'']" tableJSON]
    by (simp add: tableJSON_def)
  have c: "enabled (getSettings tableJSON [SETTINGS_KEY \<mapsto> ''{expirationMinutes:10}'']) = True
           \<and> expirationMinutes (getSettings tableJSON [SETTINGS_KEY \<mapsto> ''{expirationMinutes:10}'']) = 10"
    using getSettings_defaults_merged [of "[SETTINGS_KEY \<mapsto> ''{expirationMinutes:10}'']" tableJSON]
    by (simp add: tableJSON_def)
  from a b c show ?thesis by (cases "getSettings tableJSON [SETTINGS_KEY \<mapsto> ''{expirationMinutes:10}'']") simp
qed

lemma getCache_storedEntries:
  "getCache J ls = (if enabled (getSettings J ls) then storedEntries J ls else [])"
  by (simp add: getCache_def storedEntries_def split: option.splits)

text \<open>
  C7. \<^verbatim>\<open>getCachedPlaylist\<close> returns the first stored entry with the playlist id
  exactly when there is one, caching is enabled and the entry's age \<open>now - cachedAt\<close> is at
  most \<open>expirationMinutes\<close> minutes (in milliseconds); otherwise it returns nothing. It
  is a read: it takes the storage and returns no new one, so the stored record stays. An
  entry cached one second before the expiration limit is returned, one cached one second
  past it is not.
\<close>

theorem getCachedPlaylist_iff_fresh:
  "getCachedPlaylist J ls now playlistId =
     (case find (\<lambda>p. pl_id p = playlistId) (storedEntries J ls) of
        None \<Rightarrow> None
      | Some p \<Rightarrow>
          if enabled (getSettings J ls)
             \<and> now - cachedAt p \<le> expirationMinutes (getSettings J ls) * 60 * 1000
          then Some p else None)
   \<and> (enabled (getSettings J ls)
        \<and> find (\<lambda>p. pl_id p = playlistId) (storedEntries J ls) = Some e
        \<and> cachedAt e = now - expirationMinutes (getSettings J ls) * 60 * 1000 - 1000
       \<longrightarrow> getCachedPlaylist J ls now playlistId = None)
   \<and> (enabled (getSettings J ls)
        \<and> find (\<lambda>p. pl_id p = playlistId) (storedEntries J ls) = Some e
        \<and> cachedAt e = now - expirationMinutes (getSettings J ls) * 60 * 1000 + 1000
       \<longrightarrow> getCachedPlaylist J ls now playlistId = Some e)"
  by (simp add: getCachedPlaylist_def getCache_storedEntries Let_def split: option.splits)

theorem getCachedPlaylist_iff_fresh_witness:
  "getCachedPlaylist tableJSON [CACHE_KEY \<mapsto> ''[gym]''] 1301000 ''p.gym'' = None
   \<and> getCachedPlaylist tableJSON [CACHE_KEY \<mapsto> ''[gym]''] 1299000 ''p.gym'' = Some gymEntry"
proof -
  have s: "getSettings tableJSON [CACHE_KEY \<mapsto> ''[gym]''] = \<lparr>enabled = True, expirationMinutes = 5\<rparr>"
    by (simp add: getSettings_def defaultSettings_def)
  have e: "storedEntries tableJSON [CACHE_KEY \<mapsto> ''[gym]''] = [gymEntry]"
    by (simp add: storedEntries_def tableJSON_def)
  have i: "pl_id gymEntry = ''p.gym''" and c: "cachedAt gymEntry = 1000000"
    by (simp_all add: gymEntry_def)
  have "getCachedPlaylist tableJSON [CACHE_KEY \<mapsto> ''[gym]''] 1301000 ''p.gym'' = None"
    using getCachedPlaylist_iff_fresh [of tableJSON "[CACHE_KEY \<mapsto> ''[gym]'']" 1301000 "''p.gym''" gymEntry]
    by (simp add: s e i c)
  moreover have "getCachedPlaylist tableJSON [CACHE_KEY \<mapsto> ''[gym]''] 1299000 ''p.gym'' = Some gymEntry"
    using getCachedPlaylist_iff_fresh [of tableJSON "[CACHE_KEY \<mapsto> ''[gym]'']" 1299000 "''p.gym''" gymEntry]
    by (simp add: s e i c)
  ultimately show ?thesis by simp
qed

text \<open>
  C10. While caching is disabled \<^verbatim>\<open>getStats\<close> reports no playlist, no expired
  playlist and no oldest entry, however many entries the persisted record holds; the
  size is still the length of the persisted cache string in rounded kilobytes, and the
  count of modified playlists is still read from the persisted list.
\<close>

theorem getStats_disabled:
  "\<not> enabled (getSettings J ls) \<Longrightarrow>
     getStats J ls now =
       \<lparr>totalPlaylists = 0,
        expiredPlaylists = 0,
        modifiedPlaylists = length (getModifiedPlaylists J ls),
        cacheSize = (length (case ls CACHE_KEY of None \<Rightarrow> [] | Some s \<Rightarrow> s) + 512) div 1024,
        oldestCache = None\<rparr>"
  by (simp add: getStats_def getCache_storedEntries Let_def)

lemma disabledStore_settings:
  "getSettings tableJSON disabledStore = \<lparr>enabled = False, expirationMinutes = 5\<rparr>"
  by (simp add: getSettings_def disabledStore_def tableJSON_def spread_def defaultSettings_def)

lemma disabledStore_entries: "storedEntries tableJSON disabledStore = [gymEntry]"
  by (simp add: storedEntries_def disabledStore_def tableJSON_def)

theorem getStats_disabled_witness:
  "storedEntries tableJSON disabledStore = [gymEntry]
   \<and> getStats tableJSON disabledStore 1100000 =
       \<lparr>totalPlaylists = 0, expiredPlaylists = 0, modifiedPlaylists = 2, cacheSize = 2,
        oldestCache = None\<rparr>"
proof -
  have m: "getModifiedPlaylists tableJSON disabledStore = [''p.gym'', ''p.run'']"
    by (simp add: getModifiedPlaylists_def readModified_def disabledStore_def tableJSON_def)
  have c: "disabledStore CACHE_KEY = Some (''[gym]'' @ replicate 2000 (CHR '' ''))"
    by (simp add: disabledStore_def)
  show ?thesis
    using getStats_disabled [of tableJSON disabledStore 1100000]
    by (simp add: disabledStore_settings disabledStore_entries m c)
qed

lemma getSettings_saveSettings_enable:
  assumes "stringify_settings J \<lparr>enabled = True, expirationMinutes = expirationMinutes (getSettings J ls)\<rparr> \<noteq> []"
    and "parse_settings J
           (stringify_settings J \<lparr>enabled = True, expirationMinutes = expirationMinutes (getSettings J ls)\<rparr>)
         = Some \<lparr>p_enabled = Some True, p_expirationMinutes = Some (expirationMinutes (getSettings J ls))\<rparr>"
  shows "getSettings J (saveSettings J ls \<lparr>p_enabled = Some True, p_expirationMinutes = None\<rparr>)
         = \<lparr>enabled = True, expirationMinutes = expirationMinutes (getSettings J ls)\<rparr>"
proof -
  have u: "spread (getSettings J ls) \<lparr>p_enabled = Some True, p_expirationMinutes = None\<rparr>
           = \<lparr>enabled = True, expirationMinutes = expirationMinutes (getSettings J ls)\<rparr>"
    by (simp add: spread_def)
  show ?thesis
    unfolding saveSettings_def Let_def u
    using assms by (simp add: getSettings_def spread_def)
qed

lemma storedEntries_saveSettings [simp]:
  "storedEntries J (saveSettings J ls p) = storedEntries J ls"
  by (simp add: storedEntries_def saveSettings_def Let_def)

text \<open>
  C8. While caching is disabled every read of the cache misses (\<^verbatim>\<open>getCache\<close> is
  empty, \<^verbatim>\<open>getCachedPlaylist\<close> and \<^verbatim>\<open>isSongInPlaylist\<close> return nothing) and
  \<^verbatim>\<open>updatePlaylists\<close> leaves the storage exactly as it was. \<^verbatim>\<open>saveSettings\<close>
  does not touch the cache record, and after enabling caching again through it, when the
  saved settings string reads back as written, the reads return the stored entries again:
  \<^verbatim>\<open>getCache\<close> all of them, \<^verbatim>\<open>getCachedPlaylist\<close> the entry of the playlist unless
  its original \<open>cachedAt\<close> is older than the expiration time.
\<close>

theorem disabled_cache_untouched:
  assumes "\<not> enabled (getSettings J ls)"
  shows "getCache J ls = []
    \<and> getCachedPlaylist J ls now playlistId = None
    \<and> isSongInPlaylist J ls now playlistId songId = None
    \<and> updatePlaylists J ls now playlists = ls
    \<and> saveSettings J ls settings CACHE_KEY = ls CACHE_KEY
    \<and> (stringify_settings J \<lparr>enabled = True, expirationMinutes = expirationMinutes (getSettings J ls)\<rparr> \<noteq> []
        \<and> parse_settings J
            (stringify_settings J \<lparr>enabled = True, expirationMinutes = expirationMinutes (getSettings J ls)\<rparr>)
          = Some \<lparr>p_enabled = Some True, p_expirationMinutes = Some (expirationMinutes (getSettings J ls))\<rparr>
       \<longrightarrow> getCache J (saveSettings J ls \<lparr>p_enabled = Some True, p_expirationMinutes = None\<rparr>)
             = storedEntries J ls
         \<and> getCachedPlaylist J (saveSettings J ls \<lparr>p_enabled = Some True, p_expirationMinutes = None\<rparr>)
               now playlistId
             = (case find (\<lambda>p. pl_id p = playlistId) (storedEntries J ls) of
                  None \<Rightarrow> None
                | Some p \<Rightarrow>
                    if now - cachedAt p \<le> expirationMinutes (getSettings J ls) * 60 * 1000
                    then Some p else None))"
proof -
  have reads: "getCache J ls = []" "getCachedPlaylist J ls now playlistId = None"
    "isSongInPlaylist J ls now playlistId songId = None"
    using assms by (simp_all add: getCache_def getCachedPlaylist_def isSongInPlaylist_def)
  have wr: "updatePlaylists J ls now playlists = ls"
    using assms by (simp add: updatePlaylists_def)
  have frame: "saveSettings J ls settings CACHE_KEY = ls CACHE_KEY"
    by (simp add: saveSettings_def Let_def)
  have again: "getCache J (saveSettings J ls \<lparr>p_enabled = Some True, p_expirationMinutes = None\<rparr>)
                 = storedEntries J ls
      \<and> getCachedPlaylist J (saveSettings J ls \<lparr>p_enabled = Some True, p_expirationMinutes = None\<rparr>)
            now playlistId
          = (case find (\<lambda>p. pl_id p = playlistId) (storedEntries J ls) of
               None \<Rightarrow> None
             | Some p \<Rightarrow>
                 if now - cachedAt p \<le> expirationMinutes (getSettings J ls) * 60 * 1000
                 then Some p else None)"
    if "stringify_settings J \<lparr>enabled = True, expirationMinutes = expirationMinutes (getSettings J ls)\<rparr> \<noteq> []"
      and "parse_settings J
            (stringify_settings J \<lparr>enabled = True, expirationMinutes = expirationMinutes (getSettings J ls)\<rparr>)
          = Some \<lparr>p_enabled = Some True, p_expirationMinutes = Some (expirationMinutes (getSettings J ls))\<rparr>"
    using getSettings_saveSettings_enable [OF that]
    by (simp add: getCache_storedEntries getCachedPlaylist_def Let_def split: option.splits)
  from reads wr frame again show ?thesis by blast
qed

theorem disabled_cache_untouched_witness:
  "getCachedPlaylist tableJSON disabledStore 1100000 ''p.gym'' = None
   \<and> isSongInPlaylist tableJSON disabledStore 1100000 ''p.gym'' ''1001'' = None
   \<and> updatePlaylists tableJSON disabledStore 1100000 [gymEntry\<lparr>tracks := []\<rparr>] = disabledStore
   \<and> getCachedPlaylist tableJSON
        (saveSettings tableJSON disabledStore \<lparr>p_enabled = Some True, p_expirationMinutes = None\<rparr>)
        1100000 ''p.gym'' = Some gymEntry"
proof -
  have i: "pl_id gymEntry = ''p.gym''" and c: "cachedAt gymEntry = 1000000"
    by (simp_all add: gymEntry_def)
  have d: "\<not> enabled (getSettings tableJSON disabledStore)"
    by (simp add: disabledStore_settings)
  have r: "stringify_settings tableJSON \<lparr>enabled = True, expirationMinutes = 5\<rparr>
             = ''{enabled:true,expirationMinutes:5}''"
    by (simp add: tableJSON_def)
  have p: "parse_settings tableJSON ''{enabled:true,expirationMinutes:5}''
             = Some \<lparr>p_enabled = Some True, p_expirationMinutes = Some 5\<rparr>"
    by (simp add: tableJSON_def)
  show ?thesis
    using disabled_cache_untouched [OF d, of 1100000 "''p.gym''" "''1001''" "[gymEntry\<lparr>tracks := []\<rparr>]"]
    by (simp add: disabledStore_settings disabledStore_entries r p i c)
qed

section \<open>Pagination on a large playlist\<close>

lemma ids_replicate: "i \<noteq> [] \<Longrightarrow> allIds (trackIds (replicate n (song i))) = replicate n i"
  by (induction n) (simp_all add: allIds_def trackIds_def song_def orEmpty_def orElse_def truthy_def)

lemma bigRemote_pages:
  "fetchAllTracks (\<lambda>s offset. (tracksPage bigRemote ''p.big'' offset, suspend idle s)) [] 0 world0
     = (replicate 1100 (song ''i.x''), world0\<lparr>awaits := 11\<rparr>)"
  by (simp add: fetchAllTracks.simps bigRemote_def serve_def limit_def replicate_add [symmetric]
      suspend_def idle_def world0_def)

text \<open>
  C5. On a playlist of 1200 tracks served in full pages of 100 the loop asks for the
  pages at the offsets 0, 100, ..., 1000: eleven pages, not ten. It stops after the page
  at offset 1000, with 1100 tracks collected, and \<^verbatim>\<open>checkSongInPlaylistWithCache\<close>
  caches 1100 identifiers.
\<close>

theorem pagination_collects_1100_of_1200:
  "fetchAllTracks (\<lambda>s offset. (tracksPage bigRemote ''p.big'' offset, s @ [offset])) [] 0 []
     = (replicate 1100 (song ''i.x''), [0, 100, 200, 300, 400, 500, 600, 700, 800, 900, 1000])
   \<and> length (tracks (snd (fst (checkSongInPlaylistWithCache idle bigRemote ''p.big'' ''Big'' [''i.y''] world0))))
     = 1100
   \<and> awaits (snd (checkSongInPlaylistWithCache idle bigRemote ''p.big'' ''Big'' [''i.y''] world0)) = 11"
proof -
  have "fetchAllTracks (\<lambda>s offset. (tracksPage bigRemote ''p.big'' offset, s @ [offset])) [] 0 []
     = (replicate 1100 (song ''i.x''), [0, 100, 200, 300, 400, 500, 600, 700, 800, 900, 1000])"
    by (simp add: fetchAllTracks.simps bigRemote_def serve_def limit_def replicate_add [symmetric])
  then show ?thesis
    by (simp add: checkSongInPlaylistWithCache_def bigRemote_pages ids_replicate Let_def)
qed

section \<open>Removing a song\<close>

lemma findIndex_None_iff: "findIndex P xs = None \<longleftrightarrow> \<not> list_ex P xs"
  by (induction xs) auto

lemma foundIndex_none: "foundIndex songIdStr allTracks = - 1 \<longleftrightarrow> \<not> list_ex (isMatch songIdStr) allTracks"
  by (cases "findIndex (isMatch songIdStr) allTracks")
    (simp_all add: foundIndex_def findIndex_None_iff [symmetric])

text \<open>
  C4. \<^verbatim>\<open>removeSongFromPlaylist\<close> fetches the track list and, when the list has a
  match and the tokens are there, issues one \<^verbatim>\<open>PUT\<close> whose list is the fetched list
  without every entry that matches the song, the entries that do not match kept in their
  order; with no match (or no tokens) it issues no \<^verbatim>\<open>PUT\<close>.
\<close>

theorem removeSong_drops_every_match:
  assumes "fetchAllTracks (\<lambda>s offset. (tracksPage R playlistId offset, s @ [Fetch playlistId offset]))
             [] 0 tr = (allTracks, tr1)"
  shows "snd (removeSongFromPlaylist R songId playlistId tr) =
           (if list_ex (isMatch songId) allTracks \<and> tokens R
            then tr1 @ [Put playlistId (map trackRef (filter (\<lambda>track. \<not> isMatch songId track) allTracks))]
            else tr1)"
  using assms
  by (simp add: removeSongFromPlaylist_def foundIndex_none remainingTracks_def Let_def)

theorem removeSong_drops_every_match_witness:
  "snd (removeSongFromPlaylist
          (serve (\<lambda>_. [song ''1001'', song ''2002'', song ''1001'', song ''3003'']))
          ''1001'' ''p.gym'' [])
     = [Fetch ''p.gym'' 0,
        Put ''p.gym'' [(Some ''2002'', ''library-songs''), (Some ''3003'', ''library-songs'')]]"
proof -
  have f: "fetchAllTracks
             (\<lambda>s offset. (tracksPage (serve (\<lambda>_. [song ''1001'', song ''2002'', song ''1001'', song ''3003'']))
                             ''p.gym'' offset, s @ [Fetch ''p.gym'' offset])) [] 0 []
           = ([song ''1001'', song ''2002'', song ''1001'', song ''3003''], [Fetch ''p.gym'' 0])"
    by (simp add: fetchAllTracks.simps serve_def limit_def)
  show ?thesis
    using removeSong_drops_every_match [OF f, of "''1001''"]
    by (simp add: isMatch_def song_def orEmpty_def trackRef_def truthy_def serve_def)
qed

text \<open>
  A playlist that holds the song twice: the \<^verbatim>\<open>PUT\<close> leaves out both entries, where
  the replacement list of the specification keeps the second one.
\<close>

theorem remove_drops_later_duplicate:
  "snd (removeSongFromPlaylist twiceInGym ''1001'' ''p.gym'' [])
     = [Fetch ''p.gym'' 0, Put ''p.gym'' [(Some ''2002'', ''library-songs'')]]
   \<and> map trackRef (spec_removeFirstMatch ''1001'' [song ''1001'', song ''2002'', song ''1001''])
     = [(Some ''2002'', ''library-songs''), (Some ''1001'', ''library-songs'')]
   \<and> remainingTracks ''1001'' [song ''1001'', song ''2002'', song ''1001'']
     \<noteq> spec_removeFirstMatch ''1001'' [song ''1001'', song ''2002'', song ''1001'']"
  by (simp add: removeSongFromPlaylist_def fetchAllTracks.simps twiceInGym_def serve_def limit_def
      foundIndex_def isMatch_def song_def orEmpty_def remainingTracks_def trackRef_def truthy_def)

section \<open>The delay and the mark of a commit\<close>

text \<open>
  C6. With two changes, \<^verbatim>\<open>applyChanges\<close> of the modal with the cache waits 200
  milliseconds between the two calls; \<^verbatim>\<open>applyChanges\<close> of
  \<^verbatim>\<open>components/PlaylistManagerModal.vue\<close> issues the same two calls with no delay.
\<close>

theorem applyChanges_delays_two_changes:
  "ap_trace (applyChanges tableJSON gymRemote ''1001'' [wantAdd ''p.gym'', wantAdd ''p.run''] Map.empty)
     = [Post ''p.gym'' ''1001'', Delay 200, Post ''p.run'' ''1001'',
        MarkModified [''p.gym'', ''p.run''], CloseModal]
   \<and> applyChangesModal gymRemote ''1001'' [wantAdd ''p.gym'', wantAdd ''p.run'']
     = [Post ''p.gym'' ''1001'', Post ''p.run'' ''1001'', CloseModal]"
  by (simp add: applyChanges_def applyChangesModal_def wantAdd_def addSongToPlaylist_def
      gymRemote_def serve_def)

lemma mark_fold_set:
  "set (foldl (\<lambda>m i. if i \<in> set m then m else m @ [i]) modified ids) = set modified \<union> set ids"
  by (induction ids arbitrary: modified) auto

lemma applyLoop_ids:
  "applyLoop R songId changes modifiedIds finished tr = (Inr ids, fin, tr') \<Longrightarrow>
     ids = modifiedIds @ map ps_id changes"
proof (induction changes arbitrary: modifiedIds finished tr)
  case Nil
  then show ?case by simp
next
  case (Cons playlist rest)
  then show ?case
    by (auto simp: Let_def split: prod.splits sum.splits if_splits dest!: Cons.IH)
qed

text \<open>
  C1. \<^verbatim>\<open>applyChanges\<close> collects the ids of the changed playlists during the loop and
  marks them in one call of \<^verbatim>\<open>markPlaylistsModified\<close> after the last change. When
  every change of the batch succeeds, the storage afterwards is the storage with all the
  changed playlists marked, the mark comes after all the calls, and, when the stored list
  could be read, the list written holds the old ids and every changed playlist.
\<close>

theorem applyChanges_marks_after_all:
  assumes "changes = filter (\<lambda>p. isInPlaylist p \<noteq> originalState p) playlists"
    and "changes \<noteq> []"
    and "applyLoop R songId changes [] [] [] = (Inr ids, fin, tr)"
  shows "ap_trace (applyChanges J R songId playlists ls) = tr @ [MarkModified (map ps_id changes), CloseModal]
    \<and> ap_storage (applyChanges J R songId playlists ls) = markPlaylistsModified J ls (map ps_id changes)
    \<and> (\<forall>modified. readModified J ls = Some modified \<longrightarrow>
          (\<exists>written. ap_storage (applyChanges J R songId playlists ls) MODIFIED_PLAYLISTS_KEY
                        = Some (stringify_ids J written)
                    \<and> set written = set modified \<union> ps_id ` set changes))"
proof -
  have ids: "ids = map ps_id changes"
    using applyLoop_ids [OF assms(3)] by simp
  have r: "applyChanges J R songId playlists ls =
             \<lparr>ap_changes = fin, ap_storage = markPlaylistsModified J ls ids,
              ap_trace = tr @ [MarkModified ids, CloseModal]\<rparr>"
    using assms by (simp add: applyChanges_def Let_def)
  have w: "\<exists>written. ap_storage (applyChanges J R songId playlists ls) MODIFIED_PLAYLISTS_KEY
                        = Some (stringify_ids J written)
                    \<and> set written = set modified \<union> ps_id ` set changes"
    if "readModified J ls = Some modified" for modified
    by (rule exI [of _ "foldl (\<lambda>m i. if i \<in> set m then m else m @ [i]) modified (map ps_id changes)"])
      (simp add: r ids markPlaylistsModified_def that mark_fold_set)
  show ?thesis
    using w by (simp add: r ids)
qed

theorem applyChanges_marks_after_all_witness:
  "ap_storage (applyChanges tableJSON gymRemote ''1001'' [wantAdd ''p.gym'', wantAdd ''p.run''] Map.empty)
     = markPlaylistsModified tableJSON Map.empty [''p.gym'', ''p.run'']
   \<and> getModifiedPlaylists tableJSON
       (ap_storage (applyChanges tableJSON gymRemote ''1001'' [wantAdd ''p.gym'', wantAdd ''p.run''] Map.empty))
     = [''p.gym'', ''p.run'']"
proof -
  have f: "[wantAdd ''p.gym'', wantAdd ''p.run'']
             = filter (\<lambda>p. isInPlaylist p \<noteq> originalState p) [wantAdd ''p.gym'', wantAdd ''p.run'']"
    by (simp add: wantAdd_def)
  have a: "applyLoop gymRemote ''1001'' [wantAdd ''p.gym'', wantAdd ''p.run''] [] [] []
      = (Inr [''p.gym'', ''p.run''],
         [(wantAdd ''p.gym'')\<lparr>originalState := True\<rparr>, (wantAdd ''p.run'')\<lparr>originalState := True\<rparr>],
         [Post ''p.gym'' ''1001'', Delay 200, Post ''p.run'' ''1001''])"
    by (simp add: wantAdd_def addSongToPlaylist_def gymRemote_def serve_def)
  have i: "map ps_id [wantAdd ''p.gym'', wantAdd ''p.run''] = [''p.gym'', ''p.run'']"
    by (simp add: wantAdd_def)
  have g: "getModifiedPlaylists tableJSON (markPlaylistsModified tableJSON Map.empty [''p.gym'', ''p.run''])
             = [''p.gym'', ''p.run'']"
    by (simp add: getModifiedPlaylists_def markPlaylistsModified_def readModified_def tableJSON_def)
  show ?thesis
    using applyChanges_marks_after_all [OF f _ a, of tableJSON Map.empty] g
    by (simp add: wantAdd_def)
qed

text \<open>
  Two additions, the second refused by the remote: the first playlist was changed, the
  modal shows the alert, and the modified list does not hold the first playlist.
\<close>

theorem applyChanges_failure_marks_nothing:
  "ap_trace (applyChanges tableJSON rejectRun ''1001'' [wantAdd ''p.gym'', wantAdd ''p.run''] Map.empty)
     = [Post ''p.gym'' ''1001'', Delay 200, Post ''p.run'' ''1001'', Alert]
   \<and> map originalState
        (ap_changes (applyChanges tableJSON rejectRun ''1001'' [wantAdd ''p.gym'', wantAdd ''p.run''] Map.empty))
     = [True, False]
   \<and> ''p.gym'' \<notin> set (getModifiedPlaylists tableJSON
        (ap_storage (applyChanges tableJSON rejectRun ''1001'' [wantAdd ''p.gym'', wantAdd ''p.run''] Map.empty)))"
  by (simp add: applyChanges_def wantAdd_def addSongToPlaylist_def rejectRun_def gymRemote_def serve_def
      getModifiedPlaylists_def readModified_def)

section \<open>What stays true across the awaits of a pass\<close>

lemma fetchAllTracks_keeps:
  "(\<And>s offset. I s \<Longrightarrow> I (snd (fetch s offset))) \<Longrightarrow> I s
     \<Longrightarrow> I (snd (fetchAllTracks fetch allTracks offset s))"
proof (induction fetch allTracks offset s rule: fetchAllTracks.induct)
  case (1 fetch allTracks offset s)
  obtain r s' where f: "fetch s offset = (r, s')"
    by (cases "fetch s offset")
  have s': "I s'"
    using "1.prems"(1) [OF "1.prems"(2), of offset] f by simp
  show ?case
  proof (cases r)
    case None
    with f s' show ?thesis by (simp add: fetchAllTracks.simps)
  next
    case (Some page)
    show ?thesis
      using f Some s' "1.IH" [OF f [symmetric] Some _ _ _ "1.prems"(1) s']
      by (simp add: fetchAllTracks.simps)
  qed
qed

lemma checkSong_keeps:
  assumes "\<And>w. I w \<Longrightarrow> I (suspend E w)" and "I w"
  shows "I (snd (checkSongInPlaylistWithCache E R playlistId name searchIds w))"
proof -
  have "I (snd (fetchAllTracks (\<lambda>s offset. (tracksPage R playlistId offset, suspend E s)) [] 0 w))"
    by (rule fetchAllTracks_keeps) (simp_all add: assms)
  then show ?thesis
    by (auto simp: checkSongInPlaylistWithCache_def Let_def split: prod.splits)
qed

lemma checkSong_id:
  "pl_id (snd (fst (checkSongInPlaylistWithCache E R playlistId name searchIds w))) = playlistId"
  by (simp add: checkSongInPlaylistWithCache_def Let_def split: prod.splits)

lemma fetchBatch_keeps:
  assumes "\<And>w. I w \<Longrightarrow> I (suspend E w)"
  shows "I w \<Longrightarrow> I (snd (fetchBatch E R searchIds batch w))"
proof (induction batch arbitrary: w)
  case Nil
  then show ?case by simp
next
  case (Cons playlist rest)
  have "I (snd (checkSongInPlaylistWithCache E R (p_id playlist) (playlistName playlist) searchIds w))"
    using assms Cons.prems by (rule checkSong_keeps)
  from Cons.IH [OF this] show ?case
    by (auto simp: Let_def split: prod.splits)
qed

lemma fetchBatch_ids:
  "map pl_id (snd (fst (fetchBatch E R searchIds batch w))) = map p_id batch"
proof (induction batch arbitrary: w)
  case Nil
  then show ?case by simp
next
  case (Cons playlist rest)
  show ?case
    using Cons.IH [of "snd (checkSongInPlaylistWithCache E R (p_id playlist) (playlistName playlist) searchIds w)"]
      checkSong_id [of E R "p_id playlist" "playlistName playlist" searchIds w]
    by (auto simp: Let_def split: prod.splits)
qed

lemma fetchBatches_keeps:
  "(\<And>w. I w \<Longrightarrow> I (suspend E w)) \<Longrightarrow> (\<And>w. I w \<Longrightarrow> I (w\<lparr>clock := clock w + 100\<rparr>)) \<Longrightarrow> I w
     \<Longrightarrow> I (snd (fetchBatches E R searchIds playlistsToFetch playlistStates playlistsToCache w))"
proof (induction E R searchIds playlistsToFetch playlistStates playlistsToCache w rule: fetchBatches.induct)
  case (1 E R searchIds playlistsToFetch playlistStates playlistsToCache w)
  show ?case
  proof (cases "playlistsToFetch = [] \<or> aborted w")
    case True
    then show ?thesis
      using "1.prems"(3) by (auto simp: fetchBatches.simps)
  next
    case False
    obtain batchStates caches w1 where b:
      "fetchBatch E R searchIds (take batchSize playlistsToFetch) w = ((batchStates, caches), w1)"
      by (metis surj_pair)
    have w1: "I w1"
      using fetchBatch_keeps [of I E w R searchIds "take batchSize playlistsToFetch"] "1.prems"(1,3) b
      by simp
    define w2 where "w2 = (if drop batchSize playlistsToFetch \<noteq> [] \<and> \<not> aborted w1
                      then suspend E (w1\<lparr>clock := clock w1 + 100\<rparr>) else w1)"
    have w2: "I w2"
      using w1 "1.prems"(1,2) by (simp add: w2_def)
    have "I (snd (fetchBatches E R searchIds (drop batchSize playlistsToFetch)
                 (playlistStates @ batchStates) (playlistsToCache @ completionOrder R caches) w2))"
      using False b
      by (intro "1.IH" [OF _ _ refl refl b [symmetric] refl w2_def "1.prems"(1,2) w2]) simp_all
    then show ?thesis
      using False b by (simp add: fetchBatches.simps [of E R searchIds playlistsToFetch] w2_def Let_def)
  qed
qed

lemma set_completionOrder [simp]: "set (completionOrder R caches) = set caches"
  by (simp add: completionOrder_def)

lemma fetchAllTracks_tracks:
  "fetch = (\<lambda>s offset. (f offset, g s))
   \<Longrightarrow> fst (fetchAllTracks fetch allTracks offset s)
       = fst (fetchAllTracks (\<lambda>s offset. (f offset, s)) allTracks offset ())"
proof (induction fetch allTracks offset s rule: fetchAllTracks.induct)
  case (1 fetch allTracks offset s)
  show ?case
  proof (cases "f offset")
    case None
    then show ?thesis
      by (simp add: "1.prems" fetchAllTracks.simps [of _ allTracks offset])
  next
    case (Some page)
    have f: "(Some page, g s) = fetch s offset"
      by (simp add: "1.prems" Some)
    show ?thesis
    proof (cases "page \<noteq> [] \<and> \<not> 1000 < offset + limit \<and> length page = limit")
      case True
      then have "fst (fetchAllTracks fetch (allTracks @ page) (offset + limit) (g s))
                 = fst (fetchAllTracks (\<lambda>s offset. (f offset, s)) (allTracks @ page) (offset + limit) ())"
        by (intro "1.IH" [OF f refl _ _ _ "1.prems"]) simp_all
      then show ?thesis
        using True Some by (simp add: "1.prems" fetchAllTracks.simps [of _ allTracks offset])
    next
      case False
      then show ?thesis
        using Some by (auto simp: "1.prems" fetchAllTracks.simps [of _ allTracks offset])
    qed
  qed
qed

lemma checkSong_tracks:
  "tracks (snd (fst (checkSongInPlaylistWithCache E R playlistId name searchIds w)))
     = remoteIds R playlistId"
proof -
  have "fst (fetchAllTracks (\<lambda>s offset. (tracksPage R playlistId offset, suspend E s)) [] 0 w)
        = fst (fetchAllTracks (\<lambda>s offset. (tracksPage R playlistId offset, s)) [] 0 ())"
    by (rule fetchAllTracks_tracks) simp
  then show ?thesis
    by (auto simp: checkSongInPlaylistWithCache_def remoteIds_def Let_def split: prod.splits)
qed

lemma fetchBatch_tracks:
  "\<forall>cached\<in>set (snd (fst (fetchBatch E R searchIds batch w))).
      tracks cached = remoteIds R (pl_id cached)"
proof (induction batch arbitrary: w)
  case Nil
  then show ?case by simp
next
  case (Cons playlist rest)
  show ?case
    using Cons.IH [of "snd (checkSongInPlaylistWithCache E R (p_id playlist) (playlistName playlist) searchIds w)"]
      checkSong_id [of E R "p_id playlist" "playlistName playlist" searchIds w]
      checkSong_tracks [of E R "p_id playlist" "playlistName playlist" searchIds w]
    by (auto simp: Let_def split: prod.splits)
qed

lemma fetchBatches_caches:
  "fetchBatches E R searchIds playlistsToFetch playlistStates playlistsToCache w
     = (Some (states', caches'), w')
   \<Longrightarrow> pl_id ` set caches' = pl_id ` set playlistsToCache \<union> p_id ` set playlistsToFetch
     \<and> (\<forall>cached\<in>set caches'.
           cached \<in> set playlistsToCache \<or> tracks cached = remoteIds R (pl_id cached))"
proof (induction E R searchIds playlistsToFetch playlistStates playlistsToCache w rule: fetchBatches.induct)
  case (1 E R searchIds playlistsToFetch playlistStates playlistsToCache w)
  show ?case
  proof (cases "playlistsToFetch = []")
    case True
    then show ?thesis
      using "1.prems" by (simp add: fetchBatches.simps)
  next
    case False
    then have na: "\<not> aborted w"
      using "1.prems" by (auto simp: fetchBatches.simps [of E R searchIds playlistsToFetch])
    obtain batchStates caches w1 where b:
      "fetchBatch E R searchIds (take batchSize playlistsToFetch) w = ((batchStates, caches), w1)"
      by (metis surj_pair)
    define w2 where "w2 = (if drop batchSize playlistsToFetch \<noteq> [] \<and> \<not> aborted w1
                      then suspend E (w1\<lparr>clock := clock w1 + 100\<rparr>) else w1)"
    have rec: "fetchBatches E R searchIds (drop batchSize playlistsToFetch)
                 (playlistStates @ batchStates) (playlistsToCache @ completionOrder R caches) w2
               = (Some (states', caches'), w')"
      using "1.prems" False na b
      by (simp add: fetchBatches.simps [of E R searchIds playlistsToFetch] w2_def Let_def)
    have c: "pl_id ` set caches = p_id ` set (take batchSize playlistsToFetch)"
      using fetchBatch_ids [of E R searchIds "take batchSize playlistsToFetch" w] b
      by (metis fst_conv snd_conv set_map)
    have t: "\<forall>cached\<in>set caches. tracks cached = remoteIds R (pl_id cached)"
      using fetchBatch_tracks [of E R searchIds "take batchSize playlistsToFetch" w] b by simp
    have ih: "pl_id ` set caches'
                = pl_id ` set (playlistsToCache @ completionOrder R caches)
                  \<union> p_id ` set (drop batchSize playlistsToFetch)
              \<and> (\<forall>cached\<in>set caches'.
                    cached \<in> set (playlistsToCache @ completionOrder R caches)
                    \<or> tracks cached = remoteIds R (pl_id cached))"
      by (rule "1.IH" [OF False na refl refl b [symmetric] refl w2_def rec])
    have split: "set (take batchSize playlistsToFetch) \<union> set (drop batchSize playlistsToFetch)
                   = set playlistsToFetch"
      by (metis append_take_drop_id set_append)
    have "pl_id ` set caches' = pl_id ` set playlistsToCache \<union> p_id ` set playlistsToFetch"
      using ih c split by (auto simp: image_Un)
    moreover have "\<forall>cached\<in>set caches'.
           cached \<in> set playlistsToCache \<or> tracks cached = remoteIds R (pl_id cached)"
      using ih t by auto
    ultimately show ?thesis by simp
  qed
qed

lemma cachedResult_modified:
  "playlistId \<in> set modifiedPlaylistIds
     \<Longrightarrow> cachedResult J ls now modifiedPlaylistIds searchIds playlistId = None"
  by (simp add: cachedResult_def)

lemma classify_step_keeps:
  "playlist \<in> set (snd acc) \<or> (playlist \<in> set sortedPlaylists \<and> p_id playlist \<in> set modifiedPlaylistIds)
   \<Longrightarrow> playlist \<in> set (snd (foldl (\<lambda>(playlistStates, playlistsToFetch) playlist.
              case cachedResult J ls now modifiedPlaylistIds searchIds (p_id playlist) of
                Some r \<Rightarrow>
                  if enabled settings then (playlistStates @ [checkState playlist r], playlistsToFetch)
                  else (playlistStates, playlistsToFetch @ [playlist])
              | None \<Rightarrow> (playlistStates, playlistsToFetch @ [playlist]))
       acc sortedPlaylists))"
proof (induction sortedPlaylists arbitrary: acc)
  case Nil
  then show ?case by simp
next
  case (Cons q rest)
  show ?case
    unfolding foldl_Cons
    by (rule Cons.IH) (use Cons.prems in \<open>auto simp: cachedResult_modified split: prod.splits option.splits\<close>)
qed

lemma classify_modified:
  "playlist \<in> set sortedPlaylists \<Longrightarrow> p_id playlist \<in> set modifiedPlaylistIds
   \<Longrightarrow> playlist \<in> set (snd (classify J ls now settings modifiedPlaylistIds searchIds sortedPlaylists))"
  unfolding classify_def by (rule classify_step_keeps) simp

lemma findIndex_Some: "findIndex P xs = Some i \<Longrightarrow> i < length xs \<and> P (xs ! i)"
proof (induction xs arbitrary: i)
  case Nil
  then show ?case by simp
next
  case (Cons x xs)
  then show ?case by (auto split: if_splits)
qed

lemma find_update_first:
  "findIndex Q xs = Some i \<Longrightarrow> Q y \<Longrightarrow> find Q (xs[i := y]) = Some y"
proof (induction xs arbitrary: i)
  case Nil
  then show ?case by simp
next
  case (Cons x xs)
  then show ?case by (auto split: if_splits)
qed

lemma find_update_other:
  "i < length xs \<Longrightarrow> \<not> Q (xs ! i) \<Longrightarrow> \<not> Q y \<Longrightarrow> find Q (xs[i := y]) = find Q xs"
proof (induction xs arbitrary: i)
  case Nil
  then show ?case by simp
next
  case (Cons x xs)
  then show ?case by (cases i) auto
qed

lemma find_append_new:
  "findIndex Q xs = None \<Longrightarrow> Q y \<Longrightarrow> find Q (xs @ [y]) = Some y"
  by (induction xs) (auto split: if_splits)

lemma find_append_found:
  "find Q xs = Some e \<Longrightarrow> find Q (xs @ ys) = Some e"
  by (induction xs) (auto split: if_splits)

text \<open>After an upsert the first entry with the playlist's id is the playlist, stamped.\<close>

lemma upsert_find_same:
  "find (\<lambda>p. pl_id p = pl_id playlist) (upsert now cache playlist) = Some (playlist\<lparr>cachedAt := now\<rparr>)"
proof (cases "findIndex (\<lambda>p. pl_id p = pl_id playlist) cache")
  case None
  then show ?thesis
    by (simp add: upsert_def find_append_new)
next
  case (Some i)
  then show ?thesis
    by (simp add: upsert_def find_update_first)
qed

text \<open>An upsert of another playlist leaves the first entry with an id as it is.\<close>

lemma upsert_find_other:
  assumes "pl_id playlist \<noteq> P" and "find (\<lambda>p. pl_id p = P) cache = Some e"
  shows "find (\<lambda>p. pl_id p = P) (upsert now cache playlist) = Some e"
proof (cases "findIndex (\<lambda>p. pl_id p = pl_id playlist) cache")
  case None
  then show ?thesis
    using assms by (simp add: upsert_def find_append_found)
next
  case (Some i)
  then have i: "i < length cache" "pl_id (cache ! i) = pl_id playlist"
    using findIndex_Some by fastforce+
  have "find (\<lambda>p. pl_id p = P) (cache[i := playlist\<lparr>cachedAt := now\<rparr>]) = find (\<lambda>p. pl_id p = P) cache"
    using i assms(1) by (intro find_update_other) simp_all
  then show ?thesis
    using Some assms(2) by (simp add: upsert_def)
qed

text \<open>
  After \<^verbatim>\<open>updatePlaylists\<close> the first entry with the id of a playlist of the list is one
  of the playlists of the list with that id, stamped with the time of the write.
\<close>

lemma upsert_all:
  "\<exists>p\<in>set playlists. pl_id p = P
   \<Longrightarrow> \<exists>q\<in>set playlists. pl_id q = P
         \<and> find (\<lambda>p. pl_id p = P) (foldl (upsert now) cache playlists) = Some (q\<lparr>cachedAt := now\<rparr>)"
proof (induction playlists rule: rev_induct)
  case Nil
  then show ?case by simp
next
  case (snoc x xs)
  show ?case
  proof (cases "pl_id x = P")
    case True
    have "find (\<lambda>p. pl_id p = P) (upsert now (foldl (upsert now) cache xs) x) = Some (x\<lparr>cachedAt := now\<rparr>)"
      using upsert_find_same [of x now "foldl (upsert now) cache xs"] True by simp
    then show ?thesis
      using True by auto
  next
    case False
    then have "\<exists>p\<in>set xs. pl_id p = P"
      using snoc.prems by auto
    from snoc.IH [OF this] obtain q where q: "q \<in> set xs" "pl_id q = P"
      "find (\<lambda>p. pl_id p = P) (foldl (upsert now) cache xs) = Some (q\<lparr>cachedAt := now\<rparr>)"
      by blast
    have "find (\<lambda>p. pl_id p = P) (upsert now (foldl (upsert now) cache xs) x) = Some (q\<lparr>cachedAt := now\<rparr>)"
      using False q(3) by (rule upsert_find_other)
    then show ?thesis
      using q by auto
  qed
qed

lemma getSettings_cong:
  "ls SETTINGS_KEY = ls' SETTINGS_KEY \<Longrightarrow> getSettings J ls = getSettings J ls'"
  by (simp add: getSettings_def)

lemma loadPlaylists_cases:
  obtains (early) "aborted (suspend E w0)"
      "loadPlaylists J E R searchIds sortedPlaylists w0 = (None, suspend E w0)"
  | (stopped) cacheStates playlistsToFetch w2 where "\<not> aborted (suspend E w0)"
      "classify J (localStorage (suspend E w0)) (clock (suspend E w0)) (getSettings J (localStorage w0))
         (getModifiedPlaylists J (localStorage (suspend E w0))) searchIds sortedPlaylists
       = (cacheStates, playlistsToFetch)"
      "fetchBatches E R searchIds playlistsToFetch cacheStates [] (suspend E w0) = (None, w2)"
      "loadPlaylists J E R searchIds sortedPlaylists w0 = (None, w2)"
  | (completed) cacheStates playlistsToFetch playlistStates playlistsToCache w2 where
      "\<not> aborted (suspend E w0)"
      "classify J (localStorage (suspend E w0)) (clock (suspend E w0)) (getSettings J (localStorage w0))
         (getModifiedPlaylists J (localStorage (suspend E w0))) searchIds sortedPlaylists
       = (cacheStates, playlistsToFetch)"
      "fetchBatches E R searchIds playlistsToFetch cacheStates [] (suspend E w0)
       = (Some (playlistStates, playlistsToCache), w2)"
      "loadPlaylists J E R searchIds sortedPlaylists w0
       = (Some (sortStates playlistStates),
          writeBack J (getSettings J (localStorage w0))
            (getModifiedPlaylists J (localStorage (suspend E w0))) playlistsToFetch playlistsToCache w2)"
proof (cases "aborted (suspend E w0)")
  case True
  then show ?thesis
    by (intro early) (simp_all add: loadPlaylists_def Let_def)
next
  case False
  obtain cacheStates playlistsToFetch where c:
    "classify J (localStorage (suspend E w0)) (clock (suspend E w0)) (getSettings J (localStorage w0))
         (getModifiedPlaylists J (localStorage (suspend E w0))) searchIds sortedPlaylists
       = (cacheStates, playlistsToFetch)"
    by (metis surj_pair)
  obtain r w2 where f:
    "fetchBatches E R searchIds playlistsToFetch cacheStates [] (suspend E w0) = (r, w2)"
    by (metis surj_pair)
  show ?thesis
  proof (cases r)
    case None
    show ?thesis
      by (rule stopped [OF False c f [unfolded None]])
        (simp add: loadPlaylists_def Let_def False c f None)
  next
    case (Some a)
    obtain playlistStates playlistsToCache where a: "a = (playlistStates, playlistsToCache)"
      by (metis surj_pair)
    show ?thesis
      by (rule completed [OF False c f [unfolded Some a]])
        (simp add: loadPlaylists_def Let_def False c f Some a)
  qed
qed

lemma loadPlaylists_completed:
  assumes "\<not> aborted (suspend E w0)"
    and "classify J (localStorage (suspend E w0)) (clock (suspend E w0)) (getSettings J (localStorage w0))
           (getModifiedPlaylists J (localStorage (suspend E w0))) searchIds sortedPlaylists
         = (cacheStates, playlistsToFetch)"
    and "fetchBatches E R searchIds playlistsToFetch cacheStates [] (suspend E w0)
         = (Some (playlistStates, playlistsToCache), w2)"
  shows "loadPlaylists J E R searchIds sortedPlaylists w0
         = (Some (sortStates playlistStates),
            writeBack J (getSettings J (localStorage w0))
              (getModifiedPlaylists J (localStorage (suspend E w0))) playlistsToFetch playlistsToCache w2)"
  using assms by (simp add: loadPlaylists_def Let_def)

lemma suspend_storage:
  "\<forall>n w. localStorage (E n w) = localStorage w \<Longrightarrow> localStorage (suspend E w) = localStorage w"
  by (simp add: suspend_def)

lemma suspend_later:
  assumes "\<forall>n w. clock w \<le> clock (E n w) \<and> localStorage (E n w) SETTINGS_KEY = localStorage w SETTINGS_KEY"
    and "t \<le> clock w \<and> localStorage w SETTINGS_KEY = k"
  shows "t \<le> clock (suspend E w) \<and> localStorage (suspend E w) SETTINGS_KEY = k"
proof -
  have "clock w \<le> clock (E (awaits w) w)"
    and "localStorage (E (awaits w) w) SETTINGS_KEY = localStorage w SETTINGS_KEY"
    using assms(1) by simp_all
  then show ?thesis
    using assms(2) by (simp add: suspend_def)
qed

lemma writeBack_cache:
  assumes "playlistsToFetch \<noteq> []" "playlistsToCache \<noteq> []" "enabled settings"
    and "enabled (getSettings J (localStorage w))"
  shows "localStorage (writeBack J settings modifiedPlaylistIds playlistsToFetch playlistsToCache w) CACHE_KEY
         = Some (stringify_cache J (foldl (upsert (clock w)) (getCache J (localStorage w)) playlistsToCache))"
  using assms by (simp add: writeBack_def updatePlaylists_def clearModifiedPlaylists_def Let_def)

lemma writeBack_clock [simp]:
  "clock (writeBack J settings modifiedPlaylistIds playlistsToFetch playlistsToCache w) = clock w"
  by (simp add: writeBack_def Let_def)

lemma writeBack_clears:
  "modifiedPlaylistIds \<noteq> [] \<Longrightarrow>
     localStorage (writeBack J settings modifiedPlaylistIds playlistsToFetch playlistsToCache w)
       MODIFIED_PLAYLISTS_KEY = None"
  by (simp add: writeBack_def clearModifiedPlaylists_def Let_def)

section \<open>The pass on the example library\<close>

lemma gym_ids: "allIds (trackIds [gymTrack]) = [''i.abc'', ''1001'']"
  by (simp add: allIds_def trackIds_def gymTrack_def orEmpty_def orElse_def truthy_def)

lemma gym_found: "songFound [''1001''] [''i.abc'', ''1001'']"
  by (simp add: songFound_def idMatches_def stripI_def)

lemma gym_page:
  "fetchAllTracks (\<lambda>s offset. (tracksPage gymRemote ''p.gym'' offset, suspend E s)) [] 0 w
     = ([gymTrack], suspend E w)"
  by (simp add: fetchAllTracks.simps gymRemote_def serve_def limit_def)

lemma gym_remoteIds: "remoteIds gymRemote ''p.gym'' = [''i.abc'', ''1001'']"
  by (simp add: remoteIds_def fetchAllTracks.simps gymRemote_def serve_def limit_def gym_ids)

lemma gym_check:
  "checkSongInPlaylistWithCache E gymRemote ''p.gym'' ''Gym'' [''1001''] w
     = ((True, \<lparr>pl_id = ''p.gym'', pl_name = ''Gym'', tracks = [''i.abc'', ''1001''],
               lastModified = clock (suspend E w), artworkUrl = None, cachedAt = clock (suspend E w)\<rparr>),
        suspend E w)"
  by (simp add: checkSongInPlaylistWithCache_def gym_page gym_ids gym_found)

lemma gym_batches:
  "\<not> aborted w \<Longrightarrow>
   fetchBatches E gymRemote [''1001''] [gymPlaylist] [] [] w
     = (Some ([checkState gymPlaylist True],
              [\<lparr>pl_id = ''p.gym'', pl_name = ''Gym'', tracks = [''i.abc'', ''1001''],
                lastModified = clock (suspend E w), artworkUrl = None, cachedAt = clock (suspend E w)\<rparr>]),
        suspend E w)"
proof -
  have n: "playlistName gymPlaylist = ''Gym''" and i: "p_id gymPlaylist = ''p.gym''"
    by (simp_all add: playlistName_def gymPlaylist_def truthy_def orEmpty_def)
  assume "\<not> aborted w"
  then show ?thesis
    by (simp add: fetchBatches.simps [of _ _ _ "[gymPlaylist]"] fetchBatches.simps [of _ _ _ "[]"]
        batchSize_def completionOrder_def n i gym_check)
qed

lemma gym_classified:
  "getModifiedPlaylists tableJSON (localStorage (suspend E gymModified)) = [''p.gym'']
   \<Longrightarrow> classify tableJSON (localStorage (suspend E gymModified)) (clock (suspend E gymModified))
         (getSettings tableJSON (localStorage gymModified))
         (getModifiedPlaylists tableJSON (localStorage (suspend E gymModified)))
         [''1001''] [gymPlaylist]
       = ([], [gymPlaylist])"
  by (simp add: classify_def cachedResult_def gymPlaylist_def)

section \<open>Cancelling a pass\<close>

text \<open>
  C3. \<^verbatim>\<open>loadPlaylists\<close> reads the \<^verbatim>\<open>aborted\<close> flag after the fetch of the listing
  and before each batch. When the flag is set after the listing, the pass returns at once;
  when it is set as a batch is about to start, the loop returns there without a fetch.
  A pass that returned on the flag has written nothing: if nothing else writes to the
  storage meanwhile, the storage at its end is the storage at its start.
\<close>

theorem cancelled_pass_writes_nothing:
  "(aborted (suspend E w0)
      \<longrightarrow> loadPlaylists J E R searchIds sortedPlaylists w0 = (None, suspend E w0))
   \<and> (aborted w \<and> playlistsToFetch \<noteq> []
      \<longrightarrow> fetchBatches E R searchIds playlistsToFetch playlistStates playlistsToCache w = (None, w))
   \<and> ((\<forall>n w. localStorage (E n w) = localStorage w)
        \<and> fst (loadPlaylists J E R searchIds sortedPlaylists w0) = None
      \<longrightarrow> localStorage (snd (loadPlaylists J E R searchIds sortedPlaylists w0)) = localStorage w0)"
proof (intro conjI impI)
  assume "aborted (suspend E w0)"
  then show "loadPlaylists J E R searchIds sortedPlaylists w0 = (None, suspend E w0)"
    by (simp add: loadPlaylists_def Let_def)
next
  assume "aborted w \<and> playlistsToFetch \<noteq> []"
  then show "fetchBatches E R searchIds playlistsToFetch playlistStates playlistsToCache w = (None, w)"
    by (simp add: fetchBatches.simps)
next
  assume a: "(\<forall>n w. localStorage (E n w) = localStorage w)
        \<and> fst (loadPlaylists J E R searchIds sortedPlaylists w0) = None"
  then have quiet: "\<forall>n w. localStorage (E n w) = localStorage w" and
    none: "fst (loadPlaylists J E R searchIds sortedPlaylists w0) = None"
    by simp_all
  show "localStorage (snd (loadPlaylists J E R searchIds sortedPlaylists w0)) = localStorage w0"
  proof (cases rule: loadPlaylists_cases [of E w0 J R searchIds sortedPlaylists])
    case early
    then show ?thesis by (simp add: suspend_storage [OF quiet])
  next
    case (stopped cacheStates playlistsToFetch w2)
    have "localStorage (snd (fetchBatches E R searchIds playlistsToFetch cacheStates [] (suspend E w0)))
            = localStorage w0"
      by (rule fetchBatches_keeps [where I = "\<lambda>w. localStorage w = localStorage w0"])
        (simp_all add: suspend_storage [OF quiet])
    then show ?thesis using stopped by simp
  next
    case (completed cacheStates playlistsToFetch playlistStates playlistsToCache w2)
    then show ?thesis using none by simp
  qed
qed

theorem cancelled_pass_writes_nothing_witness:
  "loadPlaylists tableJSON (closeAt 0) gymRemote [''1001''] [gymPlaylist] world0
     = (None, suspend (closeAt 0) world0)
   \<and> fetchBatches (closeAt 0) gymRemote [''1001''] [gymPlaylist] [] [] (world0\<lparr>aborted := True\<rparr>)
     = (None, world0\<lparr>aborted := True\<rparr>)
   \<and> localStorage (snd (loadPlaylists tableJSON (closeAt 0) gymRemote [''1001''] [gymPlaylist] world0))
     = localStorage world0"
proof -
  have a: "aborted (suspend (closeAt 0) world0)"
    by (simp add: suspend_def closeAt_def world0_def)
  have q: "\<forall>n w. localStorage (closeAt 0 n w) = localStorage w"
    by (simp add: closeAt_def)
  have b: "aborted (world0\<lparr>aborted := True\<rparr>) \<and> [gymPlaylist] \<noteq> []"
    by simp
  note t = cancelled_pass_writes_nothing
    [where E = "closeAt 0" and ?w0.0 = world0 and J = tableJSON and R = gymRemote
       and searchIds = "[''1001'']" and sortedPlaylists = "[gymPlaylist]"
       and w = "world0\<lparr>aborted := True\<rparr>" and playlistsToFetch = "[gymPlaylist]"
       and playlistStates = "[]" and playlistsToCache = "[]"]
  from t a have 1: "loadPlaylists tableJSON (closeAt 0) gymRemote [''1001''] [gymPlaylist] world0
     = (None, suspend (closeAt 0) world0)"
    by blast
  from t b have 2: "fetchBatches (closeAt 0) gymRemote [''1001''] [gymPlaylist] [] [] (world0\<lparr>aborted := True\<rparr>)
     = (None, world0\<lparr>aborted := True\<rparr>)"
    by blast
  have "fst (loadPlaylists tableJSON (closeAt 0) gymRemote [''1001''] [gymPlaylist] world0) = None"
    by (simp only: 1 fst_conv)
  with t q have 3: "localStorage (snd (loadPlaylists tableJSON (closeAt 0) gymRemote [''1001''] [gymPlaylist] world0))
     = localStorage world0"
    by blast
  from 1 2 3 show ?thesis by blast
qed

text \<open>
  The user closes the modal while the page of the only playlist is being fetched: the
  flag is set when the batch ends, no check follows, and the pass writes the cache.
\<close>

theorem abort_in_last_batch_still_writes:
  "aborted (snd (fetchBatches (closeAt 1) gymRemote [''1001''] [gymPlaylist] [] []
                   (suspend (closeAt 1) world0)))
   \<and> localStorage world0 CACHE_KEY = None
   \<and> localStorage (snd (loadPlaylists tableJSON (closeAt 1) gymRemote [''1001''] [gymPlaylist] world0))
        CACHE_KEY = Some ''[gym]''"
proof -
  have na: "\<not> aborted (suspend (closeAt 1) world0)"
    by (simp add: suspend_def closeAt_def world0_def)
  have b: "fetchBatches (closeAt 1) gymRemote [''1001''] [gymPlaylist] [] [] (suspend (closeAt 1) world0)
      = (Some ([checkState gymPlaylist True], [gymEntry]), world0\<lparr>aborted := True, awaits := 2\<rparr>)"
    using gym_batches [OF na]
    by (simp add: suspend_def closeAt_def world0_def gymEntry_def)
  have c: "classify tableJSON (localStorage (suspend (closeAt 1) world0)) (clock (suspend (closeAt 1) world0))
             (getSettings tableJSON (localStorage world0))
             (getModifiedPlaylists tableJSON (localStorage (suspend (closeAt 1) world0)))
             [''1001''] [gymPlaylist]
             = ([], [gymPlaylist])"
    by (simp add: classify_def cachedResult_def isSongInPlaylist_def getCachedPlaylist_def
        getCache_def getSettings_def defaultSettings_def suspend_def closeAt_def world0_def
        getModifiedPlaylists_def readModified_def)
  have l: "snd (loadPlaylists tableJSON (closeAt 1) gymRemote [''1001''] [gymPlaylist] world0)
      = writeBack tableJSON (getSettings tableJSON (localStorage world0))
           (getModifiedPlaylists tableJSON (localStorage (suspend (closeAt 1) world0)))
           [gymPlaylist] [gymEntry] (world0\<lparr>aborted := True, awaits := 2\<rparr>)"
    by (simp only: loadPlaylists_completed [OF na c b] snd_conv)
  have w: "localStorage (writeBack tableJSON (getSettings tableJSON (localStorage world0))
           (getModifiedPlaylists tableJSON (localStorage (suspend (closeAt 1) world0)))
           [gymPlaylist] [gymEntry] (world0\<lparr>aborted := True, awaits := 2\<rparr>)) CACHE_KEY = Some ''[gym]''"
    by (simp add: writeBack_def updatePlaylists_def getSettings_def getCache_def world0_def
        defaultSettings_def upsert_def tableJSON_def gymEntry_def suspend_def closeAt_def
        getModifiedPlaylists_def readModified_def)
  have z: "localStorage world0 CACHE_KEY = None"
    by (simp add: world0_def)
  show ?thesis
    by (simp only: b l w z) simp
qed

section \<open>Completing a pass\<close>

text \<open>
  C2. After a completed pass whose snapshot of the modified list was not empty, the
  whole modified record is gone from the storage, so the list reads as empty: every id of
  the snapshot is absent, and so is any other id. Each id of the snapshot that is a
  playlist of the listing is fetched: when caching was enabled at the start and no one
  changed the settings or set the clock back during the pass, the pass has written the
  cache record, and the entry of the id in it (the first with the id, the one a read
  returns) holds the identifiers fetched from the remote and has as \<open>cachedAt\<close> the time
  of the write, which is not before the start of the pass.
\<close>

theorem completed_pass_clears_whole_set:
  assumes "loadPlaylists J E R searchIds sortedPlaylists w0 = (Some result, w')"
  shows "(getModifiedPlaylists J (localStorage (suspend E w0)) \<noteq> []
            \<longrightarrow> localStorage w' MODIFIED_PLAYLISTS_KEY = None
              \<and> getModifiedPlaylists J (localStorage w') = [])
    \<and> (\<forall>P. P \<in> set (getModifiedPlaylists J (localStorage (suspend E w0)))
             \<and> P \<in> p_id ` set sortedPlaylists
             \<and> enabled (getSettings J (localStorage w0))
             \<and> (\<forall>n w. clock w \<le> clock (E n w)
                       \<and> localStorage (E n w) SETTINGS_KEY = localStorage w SETTINGS_KEY)
          \<longrightarrow> (\<exists>cache e. localStorage w' CACHE_KEY = Some (stringify_cache J cache)
                       \<and> find (\<lambda>p. pl_id p = P) cache = Some e
                       \<and> tracks e = remoteIds R P
                       \<and> cachedAt e = clock w'
                       \<and> clock w0 \<le> cachedAt e))"
proof (cases rule: loadPlaylists_cases [of E w0 J R searchIds sortedPlaylists])
  case early
  then show ?thesis using assms by simp
next
  case (stopped cacheStates playlistsToFetch w2)
  then show ?thesis using assms by simp
next
  case (completed cacheStates playlistsToFetch playlistStates playlistsToCache w2)
  let ?snapshot = "getModifiedPlaylists J (localStorage (suspend E w0))"
  let ?settings = "getSettings J (localStorage w0)"
  have w': "w' = writeBack J ?settings ?snapshot playlistsToFetch playlistsToCache w2"
    using completed(4) assms by simp
  have cleared: "localStorage w' MODIFIED_PLAYLISTS_KEY = None \<and> getModifiedPlaylists J (localStorage w') = []"
    if "?snapshot \<noteq> []"
    using writeBack_clears [OF that, of J ?settings playlistsToFetch playlistsToCache w2]
    by (simp add: w' getModifiedPlaylists_def readModified_def)
  have refreshed: "\<exists>cache e. localStorage w' CACHE_KEY = Some (stringify_cache J cache)
                       \<and> find (\<lambda>p. pl_id p = P) cache = Some e
                       \<and> tracks e = remoteIds R P
                       \<and> cachedAt e = clock w'
                       \<and> clock w0 \<le> cachedAt e"
    if P: "P \<in> set ?snapshot" "P \<in> p_id ` set sortedPlaylists" and en: "enabled ?settings"
      and env: "\<forall>n w. clock w \<le> clock (E n w)
                       \<and> localStorage (E n w) SETTINGS_KEY = localStorage w SETTINGS_KEY"
    for P
  proof -
    from P(2) obtain playlist where pl: "playlist \<in> set sortedPlaylists" "p_id playlist = P"
      by auto
    have "playlist \<in> set (snd (classify J (localStorage (suspend E w0)) (clock (suspend E w0)) ?settings
                                  ?snapshot searchIds sortedPlaylists))"
      using pl P(1) by (intro classify_modified) simp_all
    then have inFetch: "playlist \<in> set playlistsToFetch"
      by (simp add: completed(2))
    note fetched = fetchBatches_caches [OF completed(3)]
    have ids: "pl_id ` set playlistsToCache = p_id ` set playlistsToFetch"
      using fetched by simp
    have fromRemote: "\<forall>cached\<in>set playlistsToCache. tracks cached = remoteIds R (pl_id cached)"
      using fetched by simp
    have "P \<in> pl_id ` set playlistsToCache"
      using inFetch pl(2) by (force simp: ids)
    then have c: "\<exists>p\<in>set playlistsToCache. pl_id p = P"
      by auto
    have start: "clock w0 \<le> clock (suspend E w0)
                 \<and> localStorage (suspend E w0) SETTINGS_KEY = localStorage w0 SETTINGS_KEY"
      by (rule suspend_later [OF env]) simp
    have "clock w0 \<le> clock (snd (fetchBatches E R searchIds playlistsToFetch cacheStates [] (suspend E w0)))
          \<and> localStorage (snd (fetchBatches E R searchIds playlistsToFetch cacheStates [] (suspend E w0)))
              SETTINGS_KEY = localStorage w0 SETTINGS_KEY"
    proof (rule fetchBatches_keeps
            [where I = "\<lambda>w. clock w0 \<le> clock w \<and> localStorage w SETTINGS_KEY = localStorage w0 SETTINGS_KEY"])
      show "clock w0 \<le> clock (suspend E w) \<and> localStorage (suspend E w) SETTINGS_KEY = localStorage w0 SETTINGS_KEY"
        if "clock w0 \<le> clock w \<and> localStorage w SETTINGS_KEY = localStorage w0 SETTINGS_KEY" for w
        using that by (rule suspend_later [OF env])
    qed (simp_all add: start)
    then have w2: "clock w0 \<le> clock w2" "localStorage w2 SETTINGS_KEY = localStorage w0 SETTINGS_KEY"
      by (simp_all add: completed(3))
    have en2: "enabled (getSettings J (localStorage w2))"
      using en getSettings_cong [of "localStorage w2" "localStorage w0" J] w2(2) by simp
    have written: "localStorage w' CACHE_KEY
        = Some (stringify_cache J (foldl (upsert (clock w2)) (getCache J (localStorage w2)) playlistsToCache))"
      unfolding w' using inFetch c en en2 by (intro writeBack_cache) auto
    obtain q where q: "q \<in> set playlistsToCache" "pl_id q = P"
      "find (\<lambda>p. pl_id p = P) (foldl (upsert (clock w2)) (getCache J (localStorage w2)) playlistsToCache)
         = Some (q\<lparr>cachedAt := clock w2\<rparr>)"
      using upsert_all [OF c] by blast
    have "tracks (q\<lparr>cachedAt := clock w2\<rparr>) = remoteIds R P"
      using fromRemote q(1,2) by auto
    moreover have "cachedAt (q\<lparr>cachedAt := clock w2\<rparr>) = clock w'"
      by (simp add: w')
    moreover have "clock w0 \<le> cachedAt (q\<lparr>cachedAt := clock w2\<rparr>)"
      using w2(1) by simp
    ultimately show ?thesis
      using written q(3) by blast
  qed
  from cleared refreshed show ?thesis by blast
qed

theorem completed_pass_clears_whole_set_witness:
  "getModifiedPlaylists tableJSON
       (localStorage (snd (loadPlaylists tableJSON idle gymRemote [''1001''] [gymPlaylist] gymModified)))
     = []
   \<and> (\<exists>cache e.
         localStorage (snd (loadPlaylists tableJSON idle gymRemote [''1001''] [gymPlaylist] gymModified))
           CACHE_KEY = Some (stringify_cache tableJSON cache)
         \<and> find (\<lambda>p. pl_id p = ''p.gym'') cache = Some e
         \<and> tracks e = [''i.abc'', ''1001'']
         \<and> cachedAt e = clock (snd (loadPlaylists tableJSON idle gymRemote [''1001''] [gymPlaylist] gymModified))
         \<and> clock gymModified \<le> cachedAt e)"
proof -
  let ?w2 = "\<lparr>localStorage = [MODIFIED_PLAYLISTS_KEY \<mapsto> ''[p.gym]''], clock = 1000000,
             aborted = False, awaits = 2\<rparr>"
  have na: "\<not> aborted (suspend idle gymModified)"
    by (simp add: suspend_def idle_def gymModified_def)
  have m: "getModifiedPlaylists tableJSON (localStorage (suspend idle gymModified)) = [''p.gym'']"
    by (simp add: suspend_def idle_def gymModified_def getModifiedPlaylists_def readModified_def
        tableJSON_def)
  have b: "fetchBatches idle gymRemote [''1001''] [gymPlaylist] [] [] (suspend idle gymModified)
      = (Some ([checkState gymPlaylist True], [gymEntry]), ?w2)"
    using gym_batches [OF na]
    by (simp add: suspend_def idle_def gymModified_def gymEntry_def)
  note l = loadPlaylists_completed [OF na gym_classified [OF m] b]
  note t = completed_pass_clears_whole_set [OF l]
  have e: "enabled (getSettings tableJSON (localStorage gymModified))"
    by (simp add: getSettings_def gymModified_def defaultSettings_def)
  have q: "\<forall>n w. clock w \<le> clock (idle n w)
             \<and> localStorage (idle n w) SETTINGS_KEY = localStorage w SETTINGS_KEY"
    by (simp add: idle_def)
  have p: "''p.gym'' \<in> p_id ` set [gymPlaylist]"
    by (simp add: gymPlaylist_def)
  have n: "getModifiedPlaylists tableJSON (localStorage (suspend idle gymModified)) \<noteq> []"
    and i: "''p.gym'' \<in> set (getModifiedPlaylists tableJSON (localStorage (suspend idle gymModified)))"
    by (simp_all add: m)
  from t n have 1: "getModifiedPlaylists tableJSON
      (localStorage (writeBack tableJSON (getSettings tableJSON (localStorage gymModified))
          (getModifiedPlaylists tableJSON (localStorage (suspend idle gymModified)))
          [gymPlaylist] [gymEntry] ?w2)) = []"
    by blast
  from t i p e q have "\<exists>cache e.
      localStorage (writeBack tableJSON (getSettings tableJSON (localStorage gymModified))
          (getModifiedPlaylists tableJSON (localStorage (suspend idle gymModified)))
          [gymPlaylist] [gymEntry] ?w2) CACHE_KEY = Some (stringify_cache tableJSON cache)
      \<and> find (\<lambda>p. pl_id p = ''p.gym'') cache = Some e
      \<and> tracks e = remoteIds gymRemote ''p.gym''
      \<and> cachedAt e = clock (writeBack tableJSON (getSettings tableJSON (localStorage gymModified))
          (getModifiedPlaylists tableJSON (localStorage (suspend idle gymModified)))
          [gymPlaylist] [gymEntry] ?w2)
      \<and> clock gymModified \<le> cachedAt e"
    by blast
  then have 2: "\<exists>cache e.
      localStorage (writeBack tableJSON (getSettings tableJSON (localStorage gymModified))
          (getModifiedPlaylists tableJSON (localStorage (suspend idle gymModified)))
          [gymPlaylist] [gymEntry] ?w2) CACHE_KEY = Some (stringify_cache tableJSON cache)
      \<and> find (\<lambda>p. pl_id p = ''p.gym'') cache = Some e
      \<and> tracks e = [''i.abc'', ''1001'']
      \<and> cachedAt e = clock (writeBack tableJSON (getSettings tableJSON (localStorage gymModified))
          (getModifiedPlaylists tableJSON (localStorage (suspend idle gymModified)))
          [gymPlaylist] [gymEntry] ?w2)
      \<and> clock gymModified \<le> cachedAt e"
    by (simp only: gym_remoteIds)
  from 1 2 show ?thesis
    by (simp only: l snd_conv)
qed

text \<open>
  Another commit marks \<open>p.run\<close> while the pass, started with \<open>p.gym\<close> in the modified
  list, fetches its page: at the end of the fetches the list holds both, after the pass
  it holds neither.
\<close>

theorem concurrent_mark_is_cleared:
  "getModifiedPlaylists tableJSON
     (localStorage (snd (fetchBatches (markAt 1 tableJSON [''p.run'']) gymRemote [''1001''] [gymPlaylist] [] []
                           (suspend (markAt 1 tableJSON [''p.run'']) gymModified))))
     = [''p.gym'', ''p.run'']
   \<and> getModifiedPlaylists tableJSON
       (localStorage (snd (loadPlaylists tableJSON (markAt 1 tableJSON [''p.run'']) gymRemote [''1001'']
                             [gymPlaylist] gymModified)))
     = []"
proof -
  let ?E = "markAt 1 tableJSON [''p.run'']"
  let ?w2 = "\<lparr>localStorage = [MODIFIED_PLAYLISTS_KEY \<mapsto> ''[p.gym,p.run]''], clock = 1000000,
             aborted = False, awaits = 2\<rparr>"
  have na: "\<not> aborted (suspend ?E gymModified)"
    by (simp add: suspend_def markAt_def gymModified_def)
  have m: "getModifiedPlaylists tableJSON (localStorage (suspend ?E gymModified)) = [''p.gym'']"
    by (simp add: suspend_def markAt_def gymModified_def getModifiedPlaylists_def readModified_def
        tableJSON_def)
  have b: "fetchBatches ?E gymRemote [''1001''] [gymPlaylist] [] [] (suspend ?E gymModified)
      = (Some ([checkState gymPlaylist True], [gymEntry]), ?w2)"
    using gym_batches [OF na]
    by (simp add: suspend_def markAt_def gymModified_def gymEntry_def markPlaylistsModified_def
        readModified_def tableJSON_def)
  have l: "snd (loadPlaylists tableJSON ?E gymRemote [''1001''] [gymPlaylist] gymModified)
      = writeBack tableJSON (getSettings tableJSON (localStorage gymModified))
           (getModifiedPlaylists tableJSON (localStorage (suspend ?E gymModified)))
           [gymPlaylist] [gymEntry] ?w2"
    by (simp only: loadPlaylists_completed [OF na gym_classified [OF m] b] snd_conv)
  have 1: "getModifiedPlaylists tableJSON (localStorage ?w2) = [''p.gym'', ''p.run'']"
    by (simp add: getModifiedPlaylists_def readModified_def tableJSON_def)
  have 2: "getModifiedPlaylists tableJSON
             (localStorage (writeBack tableJSON (getSettings tableJSON (localStorage gymModified))
                [''p.gym''] [gymPlaylist] [gymEntry] ?w2)) = []"
    by (simp add: writeBack_def clearModifiedPlaylists_def getModifiedPlaylists_def readModified_def
        Let_def)
  show ?thesis
    by (simp only: b l m 1 2 snd_conv)
qed

end
